theory Spec2Isabelle
  imports Complex_Main
begin

section \<open>Data model of \<open>bot.py\<close>\<close>

text \<open>
  The bot receives photo messages from Telegram, buffers the messages of one album
  (\<open>media_group_buffer\<close>), and archives a buffered album with
  \<open>MediaArchiver.save_media_group\<close>: one folder per album under
  \<open>downloads/media_groups\<close>, one \<open>info.json\<close> per folder, and the running index
  \<open>downloads/metadata.json\<close>.

  A Python \<open>str\<close> is modelled as \<open>string\<close>; one \<open>char\<close> stands for one character of
  the Python string. A \<open>pathlib.Path\<close> is the list of its components, so that
  \<open>p / name\<close> is \<open>p @ [name]\<close>, \<open>p.parent\<close> is \<open>butlast p\<close> and \<open>p.name\<close> is \<open>last p\<close>.
\<close>

type_synonym path = "string list"

text \<open>The attributes of \<open>telegram.PhotoSize\<close>, \<open>telegram.User\<close> and \<open>telegram.Message\<close>
  that the source reads.\<close>

record photo_size =
  file_id :: string
  file_size :: "int option"
  width :: int
  height :: int

record user =
  username :: "string option"
  full_name :: string

record message =
  message_id :: int
  media_group_id :: "string option"
  caption :: "string option"
  from_user :: "user option"
  chat_id :: int
  photo :: "photo_size list"

text \<open>The dictionaries appended to \<open>group_info['files']\<close>, the dictionary \<open>group_info\<close>
  itself (written to \<open>info.json\<close>), the summaries appended to \<open>metadata['groups']\<close> and
  the dictionary \<open>self.metadata\<close>. The keys are fixed in the source, so each dictionary
  is a record; a key that clashes with an attribute above carries a prefix.\<close>

record stored_file =
  f_file_id :: string
  f_filename :: string
  f_size :: "int option"
  f_width :: int
  f_height :: int

record group_info =
  info_media_group_id :: string
  info_date :: string
  info_caption :: string
  info_files :: "stored_file list"
  info_sender :: string
  info_chat_id :: "int option"
  info_message_count :: nat

record group_summary =
  group_id :: string
  folder :: string
  date :: string
  files_count :: nat
  summary_caption :: string

record metadata_index =
  groups :: "group_summary list"
  total_files :: nat

definition empty_index :: metadata_index where
  "empty_index = \<lparr>groups = [], total_files = 0\<rparr>"

subsection \<open>The file system\<close>

text \<open>
  What a file holds: nothing complete (a file just opened with mode \<open>'w'\<close>, or one whose
  write broke off), the bytes of a downloaded photo, or the JSON document that
  \<open>json.dump\<close> wrote. \<open>json.dump\<close> and \<open>json.load\<close> belong to the Python library: a
  document is kept as the value that was dumped, and loading returns that value.
\<close>

datatype content =
  Truncated
  | Bytes string
  | InfoDoc group_info
  | IndexDoc metadata_index

datatype node = Dir | File content

type_synonym filesystem = "path \<rightharpoonup> node"

datatype error =
  FileExistsError
  | FileNotFoundError
  | IsADirectoryError
  | PermissionError
  | OSError
  | JSONDecodeError
  | TelegramError

text \<open>
  What the program cannot decide by itself, at one moment: the clock, the Telegram
  servers and the operating system's refusals.
  \<^item> \<open>now\<close> is \<open>datetime.now().isoformat()\<close>;
  \<^item> \<open>get_file fid\<close> is the \<open>file_path\<close> of the file that \<open>photo.get_file()\<close> returns
    for the photo \<open>fid\<close>, \<open>None\<close> when the call raises;
  \<^item> \<open>retrieve p\<close> is the bytes behind the remote path \<open>p\<close>, \<open>None\<close> when the transfer
    raises;
  \<^item> \<open>denied p\<close> holds when the operating system refuses to create or to open for
    writing the local path \<open>p\<close> (permissions, read-only file system);
  \<^item> \<open>write_error p\<close> holds when writing into the open file \<open>p\<close>, or closing it, raises
    (full disk): the file is then left as the \<open>open\<close> made it, or with a part of the
    content;
  \<^item> \<open>reply_ok mid\<close> holds when \<open>reply_text\<close> on the message \<open>mid\<close> is delivered;
    otherwise the call raises.
\<close>

record env =
  now :: string
  get_file :: "string \<Rightarrow> string option"
  retrieve :: "string \<Rightarrow> string option"
  denied :: "path \<Rightarrow> bool"
  write_error :: "path \<Rightarrow> bool"
  reply_ok :: "int \<Rightarrow> bool"

text \<open>The empty path is the working directory, which always exists.\<close>

definition is_dir :: "filesystem \<Rightarrow> path \<Rightarrow> bool" where
  "is_dir f p = (p = [] \<or> f p = Some Dir)"

text \<open>\<open>Path.mkdir(exist_ok=True)\<close>, without \<open>parents\<close>: an existing directory is left
  alone, an existing file is an error, and so is a missing parent.\<close>

definition mkdir_exist_ok :: "env \<Rightarrow> filesystem \<Rightarrow> path \<Rightarrow> error + filesystem" where
  "mkdir_exist_ok e f p =
     (if is_dir f p then Inr f
      else if f p \<noteq> None then Inl FileExistsError
      else if \<not> is_dir f (butlast p) then Inl FileNotFoundError
      else if denied e p then Inl PermissionError
      else Inr (f(p \<mapsto> Dir)))"

text \<open>\<open>open(p, 'w')\<close>: the file is created or emptied at once.\<close>

definition open_w :: "env \<Rightarrow> filesystem \<Rightarrow> path \<Rightarrow> error + filesystem" where
  "open_w e f p =
     (if is_dir f p then Inl IsADirectoryError
      else if \<not> is_dir f (butlast p) then Inl FileNotFoundError
      else if denied e p then Inl PermissionError
      else Inr (f(p \<mapsto> File Truncated)))"

text \<open>
  Opening with \<open>'w'\<close>, writing the whole content and closing: the file system that is
  left, and the exception, if any. When the \<open>open\<close> raises nothing has changed; when
  the write or the close raises, the file stays as the \<open>open\<close> left it.
\<close>

definition write_file ::
  "env \<Rightarrow> filesystem \<Rightarrow> path \<Rightarrow> content \<Rightarrow> filesystem \<times> error option"
where
  "write_file e f p c =
     (case open_w e f p of
        Inl err \<Rightarrow> (f, Some err)
      | Inr f' \<Rightarrow> if write_error e p then (f', Some OSError) else (f'(p \<mapsto> File c), None))"

text \<open>\<open>File.download_to_drive(filepath)\<close>: the bytes are fetched first, then written.\<close>

definition download_to_drive ::
  "env \<Rightarrow> filesystem \<Rightarrow> string \<Rightarrow> path \<Rightarrow> filesystem \<times> error option"
where
  "download_to_drive e f remote filepath =
     (case retrieve e remote of
        None \<Rightarrow> (f, Some TelegramError)
      | Some bytes \<Rightarrow> write_file e f filepath (Bytes bytes))"

subsection \<open>Formatting\<close>

definition digit_char :: "nat \<Rightarrow> char" where
  "digit_char d = ''0123456789'' ! (d mod 10)"

text \<open>\<open>str(n)\<close> for a natural number.\<close>

fun str_nat :: "nat \<Rightarrow> string" where
  "str_nat n = (if n < 10 then [digit_char n] else str_nat (n div 10) @ [digit_char n])"

declare str_nat.simps [simp del]

text \<open>\<open>str(i)\<close> for an integer.\<close>

definition str_int :: "int \<Rightarrow> string" where
  "str_int i = (if i < 0 then CHR ''-'' # str_nat (nat (- i)) else str_nat (nat i))"

text \<open>The format \<open>{n:0wd}\<close>: decimal, padded with zeros on the left up to \<open>w\<close> characters.\<close>

definition fmt_0d :: "nat \<Rightarrow> nat \<Rightarrow> string" where
  "fmt_0d w n = replicate (w - length (str_nat n)) CHR ''0'' @ str_nat n"

text \<open>\<open>s.split('.')[-1]\<close>: what follows the last dot, the whole string when there is none.\<close>

definition split_last :: "string \<Rightarrow> string" where
  "split_last s = rev (takeWhile (\<lambda>c. c \<noteq> CHR ''.'') (rev s))"

text \<open>Truth of an optional string in a condition: \<open>None\<close> and \<open>''\<close> are false.\<close>

fun truthy :: "string option \<Rightarrow> bool" where
  "truthy None = False"
| "truthy (Some s) = (s \<noteq> [])"

section \<open>The program state\<close>

text \<open>
  The reply texts are fixed templates; only the number in the album's acknowledgement
  varies. \<open>AlbumSaved n\<close> is the acknowledgement of a flushed album with \<open>n\<close> in the place
  of \<open>len(messages)\<close>, \<open>PhotoSaved\<close> the one of a single photo.
\<close>

datatype reply = AlbumSaved nat | PhotoSaved

datatype log_entry =
  LogSaved path
  | LogGroupSaved string path
  | LogError string error

text \<open>
  \<open>download_dir\<close> is the archiver's immutable configuration; \<open>metadata\<close> is
  \<open>archiver.metadata\<close>; \<open>media_group_buffer\<close> is the module's \<open>defaultdict(list)\<close>;
  \<open>outbox\<close> lists the replies delivered so far, each with the id of the message it
  answers; \<open>log\<close> lists the records written to the logger.
\<close>

record world =
  download_dir :: path
  fs :: filesystem
  metadata :: metadata_index
  media_group_buffer :: "string \<rightharpoonup> message list"
  outbox :: "(int \<times> reply) list"
  log :: "log_entry list"

definition media_groups_dir :: "world \<Rightarrow> path" where
  "media_groups_dir w = download_dir w @ [''media_groups'']"

definition metadata_file :: "world \<Rightarrow> path" where
  "metadata_file w = download_dir w @ [''metadata.json'']"

section \<open>Metadata store\<close>

text \<open>\<open>MediaArchiver._load_metadata\<close>. \<open>Path.exists\<close> holds for a directory too, and then
  \<open>open\<close> raises; \<open>json.load\<close> raises on a file that holds no JSON document. A JSON
  document of another shape than the index is outside this typed model and counts as
  undecodable.\<close>

definition load_metadata :: "world \<Rightarrow> error + metadata_index" where
  "load_metadata w =
     (case fs w (metadata_file w) of
        None \<Rightarrow> Inr empty_index
      | Some Dir \<Rightarrow> Inl IsADirectoryError
      | Some (File (IndexDoc idx)) \<Rightarrow> Inr idx
      | Some (File _) \<Rightarrow> Inl JSONDecodeError)"

text \<open>
  \<open>MediaArchiver._save_metadata\<close>, in its two statements: the \<open>with open(..., 'w')\<close>
  and the \<open>json.dump\<close> into the open file. The world that is left, and the exception,
  if any: when the \<open>open\<close> raises nothing has changed; when the \<open>json.dump\<close> or the close
  of the \<open>with\<close> block raises, the metadata file stays as the \<open>open\<close> left it.
\<close>

definition json_dump_metadata :: "world \<Rightarrow> filesystem \<Rightarrow> filesystem" where
  "json_dump_metadata w f = f(metadata_file w \<mapsto> File (IndexDoc (metadata w)))"

definition save_metadata :: "env \<Rightarrow> world \<Rightarrow> world \<times> error option" where
  "save_metadata e w =
     (case open_w e (fs w) (metadata_file w) of
        Inl err \<Rightarrow> (w, Some err)
      | Inr f \<Rightarrow>
          if write_error e (metadata_file w) then (w\<lparr>fs := f\<rparr>, Some OSError)
          else (w\<lparr>fs := json_dump_metadata w f\<rparr>, None))"

text \<open>The states of the file system that a save passes through, in order: after the
  \<open>open\<close>, and after the \<open>json.dump\<close>. None when the \<open>open\<close> raises, the first only when
  the \<open>json.dump\<close> raises.\<close>

definition save_metadata_states :: "env \<Rightarrow> world \<Rightarrow> filesystem list" where
  "save_metadata_states e w =
     (case open_w e (fs w) (metadata_file w) of
        Inl err \<Rightarrow> []
      | Inr f \<Rightarrow>
          if write_error e (metadata_file w) then [f] else [f, json_dump_metadata w f])"

section \<open>Group archiver\<close>

text \<open>\<open>group_count\<close> and \<open>group_dir\<close> as computed at the head of \<open>save_media_group\<close>.\<close>

definition group_count :: "world \<Rightarrow> nat" where
  "group_count w = length (groups (metadata w)) + 1"

definition group_folder :: "nat \<Rightarrow> string" where
  "group_folder n = ''group_'' @ fmt_0d 4 n"

definition group_dir :: "world \<Rightarrow> path" where
  "group_dir w = media_groups_dir w @ [group_folder (group_count w)]"

text \<open>The file name of a photo. It is one component of the local path: the part of the
  remote path after its last dot is taken to hold no slash.\<close>

definition photo_filename :: "nat \<Rightarrow> string \<Rightarrow> string" where
  "photo_filename idx remote = ''photo_'' @ fmt_0d 2 idx @ ''.'' @ split_last remote"

text \<open>The head of the loop body: caption, sender and chat of \<open>group_info\<close>.\<close>

definition note_message :: "nat \<Rightarrow> message \<Rightarrow> group_info \<Rightarrow> group_info" where
  "note_message idx msg gi =
     (let gi1 = (if idx = 1 \<and> truthy (caption msg)
                 then gi\<lparr>info_caption := (case caption msg of Some c \<Rightarrow> c | None \<Rightarrow> [])\<rparr>
                 else gi);
          gi2 = (case from_user msg of
                   None \<Rightarrow> gi1
                 | Some u \<Rightarrow>
                     gi1\<lparr>info_sender :=
                       (case username u of
                          Some n \<Rightarrow> if n \<noteq> [] then n else full_name u
                        | None \<Rightarrow> full_name u)\<rparr>)
      in gi2\<lparr>info_chat_id := Some (chat_id msg)\<rparr>)"

text \<open>
  The loop \<open>for idx, msg in enumerate(messages, 1)\<close>. An exception leaves the loop with
  the state of the world at that point; \<open>group_info\<close> is a local and is lost with it.
\<close>

fun process_messages ::
  "env \<Rightarrow> path \<Rightarrow> nat \<Rightarrow> message list \<Rightarrow> group_info \<Rightarrow> world \<Rightarrow> world \<times> (error + group_info)"
where
  "process_messages e gd idx [] gi w = (w, Inr gi)"
| "process_messages e gd idx (msg # rest) gi w =
     (let gi' = note_message idx msg gi in
      if photo msg = [] then process_messages e gd (idx + 1) rest gi' w
      else
        let ph = last (photo msg) in
        case get_file e (file_id ph) of
          None \<Rightarrow> (w, Inl TelegramError)
        | Some remote \<Rightarrow>
            let filename = photo_filename idx remote;
                filepath = gd @ [filename]
            in case download_to_drive e (fs w) remote filepath of
                 (f, Some err) \<Rightarrow> (w\<lparr>fs := f\<rparr>, Inl err)
               | (f, None) \<Rightarrow>
                   process_messages e gd (idx + 1) rest
                     (gi'\<lparr>info_files := info_files gi' @
                        [\<lparr>f_file_id = file_id ph, f_filename = filename,
                          f_size = file_size ph, f_width = width ph,
                          f_height = height ph\<rparr>]\<rparr>)
                     (w\<lparr>fs := f, log := log w @ [LogSaved filepath]\<rparr>))"

definition new_group_info :: "env \<Rightarrow> string \<Rightarrow> message list \<Rightarrow> group_info" where
  "new_group_info e gid messages =
     \<lparr>info_media_group_id = gid, info_date = now e, info_caption = [], info_files = [],
      info_sender = [], info_chat_id = None, info_message_count = length messages\<rparr>"

definition summary_of :: "string \<Rightarrow> path \<Rightarrow> group_info \<Rightarrow> group_summary" where
  "summary_of gid gd gi =
     \<lparr>group_id = gid, folder = last gd, date = info_date gi,
      files_count = length (info_files gi),
      summary_caption = (if info_caption gi \<noteq> [] then take 100 (info_caption gi) else [])\<rparr>"

text \<open>The update of \<open>self.metadata\<close> in memory: the \<open>append\<close> and the \<open>+=\<close>.\<close>

definition update_metadata :: "string \<Rightarrow> path \<Rightarrow> group_info \<Rightarrow> metadata_index \<Rightarrow> metadata_index" where
  "update_metadata gid gd gi m =
     m\<lparr>groups := groups m @ [summary_of gid gd gi],
       total_files := total_files m + length (info_files gi)\<rparr>"

text \<open>The steps of the body of the \<open>try\<close> that can raise: the \<open>mkdir\<close> of the group folder;
  the loop, with its \<open>get_file\<close> and \<open>download_to_drive\<close>; the write of \<open>info.json\<close>; and
  \<open>_save_metadata\<close>.\<close>

datatype step = CreateFolder | Download | WriteDescriptor | SaveIndex

text \<open>
  The body of the \<open>try\<close> of \<open>save_media_group\<close>: the world it leaves, and the exception
  that ended it, if any, with the step that raised it (what the traceback of the
  exception tells). What was done before an exception stays done.
\<close>

definition save_media_group_try ::
  "env \<Rightarrow> string \<Rightarrow> message list \<Rightarrow> world \<Rightarrow> world \<times> (step \<times> error) option"
where
  "save_media_group_try e gid messages w =
     (let gd = group_dir w in
      case mkdir_exist_ok e (fs w) gd of
        Inl err \<Rightarrow> (w, Some (CreateFolder, err))
      | Inr f1 \<Rightarrow>
          (case process_messages e gd 1 messages (new_group_info e gid messages) (w\<lparr>fs := f1\<rparr>) of
             (w2, Inl err) \<Rightarrow> (w2, Some (Download, err))
           | (w2, Inr gi) \<Rightarrow>
               (case write_file e (fs w2) (gd @ [''info.json'']) (InfoDoc gi) of
                  (f3, Some err) \<Rightarrow> (w2\<lparr>fs := f3\<rparr>, Some (WriteDescriptor, err))
                | (f3, None) \<Rightarrow>
                    let w3 = w2\<lparr>fs := f3, metadata := update_metadata gid gd gi (metadata w2)\<rparr>
                    in case save_metadata e w3 of
                         (w4, Some err) \<Rightarrow> (w4, Some (SaveIndex, err))
                       | (w4, None) \<Rightarrow> (w4\<lparr>log := log w4 @ [LogGroupSaved gid gd]\<rparr>, None))))"

text \<open>\<open>MediaArchiver.save_media_group\<close>: the \<open>except Exception\<close> logs and returns \<open>False\<close>.\<close>

definition save_media_group :: "env \<Rightarrow> string \<Rightarrow> message list \<Rightarrow> world \<Rightarrow> world \<times> bool" where
  "save_media_group e gid messages w =
     (case save_media_group_try e gid messages w of
        (w', None) \<Rightarrow> (w', True)
      | (w', Some (st, err)) \<Rightarrow> (w'\<lparr>log := log w' @ [LogError gid err]\<rparr>, False))"

text \<open>A sequence of archive operations, one after the other, each in the environment of
  its moment: the final world and the results in order.\<close>

fun archive_all :: "(env \<times> string \<times> message list) list \<Rightarrow> world \<Rightarrow> world \<times> bool list" where
  "archive_all [] w = (w, [])"
| "archive_all ((e, gid, messages) # rest) w =
     (case save_media_group e gid messages w of
        (w', ok) \<Rightarrow> (case archive_all rest w' of (w'', oks) \<Rightarrow> (w'', ok # oks)))"

section \<open>Message router and group buffer\<close>

text \<open>
  \<open>handle_media\<close> is a coroutine, and \<open>await asyncio.sleep(1)\<close> cuts it in two parts:
  \<open>handle_media\<close> below runs from the entry to the sleep (or to the end, on the path
  without a sleep), \<open>handle_media_wake\<close> from the sleep to the end.

  \<open>main\<close> builds the \<open>Application\<close> with the defaults of the library and registers the
  handler with its defaults: the updates are taken from the queue one at a time, and
  the handler of an update is awaited to its end, through its sleep and its archive
  operation, before the next update is looked at. So no other handler runs between
  the two parts of a handler, nor at any \<open>await\<close> inside \<open>save_media_group\<close> or at the
  reply: \<open>handle_update\<close> is what handling one update does, and \<open>run_updates\<close> what
  handling a sequence of updates does.
\<close>

datatype outcome = Done world | Sleeping world | Raised world error

fun world_of :: "outcome \<Rightarrow> world" where
  "world_of (Done w) = w"
| "world_of (Sleeping w) = w"
| "world_of (Raised w err) = w"

text \<open>\<open>media_group_buffer[gid]\<close> on the \<open>defaultdict(list)\<close>: a missing key is bound to a
  new empty list first.\<close>

definition getitem :: "(string \<rightharpoonup> message list) \<Rightarrow> string \<Rightarrow> (string \<rightharpoonup> message list) \<times> message list" where
  "getitem b gid = (case b gid of None \<Rightarrow> (b(gid \<mapsto> []), []) | Some ms \<Rightarrow> (b, ms))"

text \<open>\<open>message.reply_text(...)\<close>.\<close>

definition reply_text :: "env \<Rightarrow> message \<Rightarrow> reply \<Rightarrow> world \<Rightarrow> error + world" where
  "reply_text e m r w =
     (if reply_ok e (message_id m) then Inr (w\<lparr>outbox := outbox w @ [(message_id m, r)]\<rparr>)
      else Inl TelegramError)"

definition the_group_id :: "message \<Rightarrow> string" where
  "the_group_id m = (case media_group_id m of Some g \<Rightarrow> g | None \<Rightarrow> [])"

definition handle_media :: "env \<Rightarrow> message \<Rightarrow> world \<Rightarrow> outcome" where
  "handle_media e m w =
     (if truthy (media_group_id m) then
        let gid = the_group_id m;
            (b, ms) = getitem (media_group_buffer w) gid
        in Sleeping (w\<lparr>media_group_buffer := b(gid \<mapsto> ms @ [m])\<rparr>)
      else if photo m \<noteq> [] then
        (case save_media_group e (''single_'' @ str_int (message_id m)) [m] w of
           (w', True) \<Rightarrow>
             (case reply_text e m PhotoSaved w' of
                Inl err \<Rightarrow> Raised w' err
              | Inr w'' \<Rightarrow> Done w'')
         | (w', False) \<Rightarrow> Done w')
      else Done w)"

text \<open>The rest of the album branch, after the sleep: the check and, on a buffer entry
  that is not empty, the flush.\<close>

definition handle_media_wake :: "env \<Rightarrow> message \<Rightarrow> world \<Rightarrow> outcome" where
  "handle_media_wake e m w =
     (let gid = the_group_id m;
          (b, messages) = getitem (media_group_buffer w) gid;
          w0 = w\<lparr>media_group_buffer := b\<rparr>
      in if messages \<noteq> [] then
           (case save_media_group e gid messages w0 of
              (w1, True) \<Rightarrow>
                (case reply_text e m (AlbumSaved (length messages)) w1 of
                   Inl err \<Rightarrow> Raised w1 err
                 | Inr w2 \<Rightarrow> Done (w2\<lparr>media_group_buffer := (media_group_buffer w2)(gid := None)\<rparr>))
            | (w1, False) \<Rightarrow>
                Done (w1\<lparr>media_group_buffer := (media_group_buffer w1)(gid := None)\<rparr>))
         else Done w0)"

subsection \<open>The dispatcher\<close>

text \<open>One update, from the entry of its handler to the end. One environment serves for
  both parts: the path with the sleep asks the environment after the sleep only, the
  path without it has no second part.\<close>

definition handle_update :: "env \<Rightarrow> message \<Rightarrow> world \<Rightarrow> outcome" where
  "handle_update e m w =
     (case handle_media e m w of
        Sleeping w1 \<Rightarrow> handle_media_wake e m w1
      | Done w1 \<Rightarrow> Done w1
      | Raised w1 err \<Rightarrow> Raised w1 err)"

text \<open>The updates in the order of the queue, each in the environment of its moment.
  An exception that leaves a handler is logged by the library, and the next update
  is handled.\<close>

fun run_updates :: "(env \<times> message) list \<Rightarrow> world \<Rightarrow> world" where
  "run_updates [] w = w"
| "run_updates ((e, m) # rest) w = run_updates rest (world_of (handle_update e m w))"

section \<open>Notions used in the statements\<close>

text \<open>The invariant of the index: the counter is the sum of the summaries' counts.\<close>

definition index_ok :: "metadata_index \<Rightarrow> bool" where
  "index_ok m = (total_files m = sum_list (map files_count (groups m)))"

text \<open>No key of the buffer is bound to the empty list.\<close>

definition no_empty_entry :: "(string \<rightharpoonup> message list) \<Rightarrow> bool" where
  "no_empty_entry b = (\<forall>k. b k \<noteq> Some [])"

text \<open>The messages buffered for a group id, none when the key is missing.\<close>

definition entry :: "(string \<rightharpoonup> message list) \<Rightarrow> string \<Rightarrow> message list" where
  "entry b gid = (case b gid of None \<Rightarrow> [] | Some ms \<Rightarrow> ms)"

text \<open>\<open>touches_only_files_in gd f f'\<close>: from \<open>f\<close> to \<open>f'\<close>, every path that changed lies
  directly in the directory \<open>gd\<close>, was no directory before and is a file now.\<close>

definition touches_only_files_in :: "path \<Rightarrow> filesystem \<Rightarrow> filesystem \<Rightarrow> bool" where
  "touches_only_files_in gd f f' =
     (\<forall>p. f' p = f p \<or> (p \<noteq> [] \<and> butlast p = gd \<and> f p \<noteq> Some Dir \<and> (\<exists>c. f' p = Some (File c))))"

text \<open>The group record that the descriptor \<open>info.json\<close> of a folder holds, if any.\<close>

definition descriptor :: "world \<Rightarrow> path \<Rightarrow> group_info option" where
  "descriptor w gd =
     (case fs w (gd @ [''info.json'']) of
        Some (File (InfoDoc gi)) \<Rightarrow> Some gi
      | _ \<Rightarrow> None)"

text \<open>\<open>keeps_all f f'\<close>: from \<open>f\<close> to \<open>f'\<close> no path is removed and every directory stays a
  directory.\<close>

definition keeps_all :: "filesystem \<Rightarrow> filesystem \<Rightarrow> bool" where
  "keeps_all f f' = (\<forall>p. (f p = Some Dir \<longrightarrow> f' p = Some Dir) \<and> (f p \<noteq> None \<longrightarrow> f' p \<noteq> None))"

subsection \<open>Concrete inputs\<close>

text \<open>An environment in which nothing fails, an album message with one photo, and the
  world right after start-up on a disk that holds the two directories only.\<close>

definition env_ok :: env where
  "env_ok =
     \<lparr>now = ''2024-05-01T12:00:00'',
      get_file = (\<lambda>fid. Some (''photos/'' @ fid @ ''.jpg'')),
      retrieve = (\<lambda>p. Some (''JPEG '' @ p)),
      denied = (\<lambda>p. False),
      write_error = (\<lambda>p. False),
      reply_ok = (\<lambda>i. True)\<rparr>"

definition photo_message :: "int \<Rightarrow> string option \<Rightarrow> message" where
  "photo_message i g =
     \<lparr>message_id = i, media_group_id = g, caption = None, from_user = None, chat_id = 7,
      photo = [\<lparr>file_id = str_int i, file_size = Some 1000, width = 800, height = 600\<rparr>]\<rparr>"

definition fresh_world :: world where
  "fresh_world =
     \<lparr>download_dir = [''downloads''],
      fs = [[''downloads''] \<mapsto> Dir, [''downloads'', ''media_groups''] \<mapsto> Dir],
      metadata = empty_index, media_group_buffer = Map.empty, outbox = [], log = []\<rparr>"

text \<open>An album of three messages.\<close>

definition album3 :: "message list" where
  "album3 =
     [photo_message 1 (Some ''album''), photo_message 2 (Some ''album''),
      photo_message 3 (Some ''album'')]"

text \<open>The updates that deliver the album.\<close>

definition album_updates :: "(env \<times> message) list" where
  "album_updates = map (\<lambda>m. (env_ok, m)) album3"

text \<open>An index with one summary.\<close>

definition sample_index :: metadata_index where
  "sample_index =
     \<lparr>groups = [\<lparr>group_id = ''g'', folder = ''group_0001'', date = ''2024-05-01T12:00:00'',
                 files_count = 2, summary_caption = ''x''\<rparr>],
      total_files = 2\<rparr>"

text \<open>The same environment, except that the transfer of one remote file fails; and the
  one in which it is the photo of message 2.\<close>

definition env_failing :: "string \<Rightarrow> env" where
  "env_failing remote =
     env_ok\<lparr>retrieve := (\<lambda>p. if p = remote then None else Some (''JPEG '' @ p))\<rparr>"

definition env_second_fails :: env where
  "env_second_fails = env_failing ''photos/2.jpg''"

text \<open>The same environment, except that \<open>downloads/metadata.json\<close> cannot be opened for
  writing.\<close>

definition env_index_denied :: env where
  "env_index_denied = env_ok\<lparr>denied := (\<lambda>p. p = [''downloads'', ''metadata.json''])\<rparr>"

text \<open>The same environment, except that the disk is full when the content of
  \<open>downloads/metadata.json\<close> is written.\<close>

definition env_index_full :: env where
  "env_index_full = env_ok\<lparr>write_error := (\<lambda>p. p = [''downloads'', ''metadata.json''])\<rparr>"

section \<open>Metadata store: load after save\<close>

lemma open_w_Inr: "open_w e f p = Inr f' \<Longrightarrow> f' = f(p \<mapsto> File Truncated) \<and> \<not> is_dir f p"
  by (auto simp: open_w_def split: if_splits)

text \<open>The three ways a write ends: the \<open>open\<close> raises, the write raises, or neither.\<close>

lemma write_file_cases:
  assumes "write_file e f p c = (f', r)"
  obtains
    (not_opened) err where "open_w e f p = Inl err" "f' = f" "r = Some err"
  | (broken_off) "\<not> is_dir f p" "f' = f(p \<mapsto> File Truncated)" "r = Some OSError"
  | (written) "\<not> is_dir f p" "f' = f(p \<mapsto> File c)" "r = None"
proof (cases "open_w e f p")
  case (Inl err)
  with assms show ?thesis by (intro not_opened [of err]) (simp_all add: write_file_def)
next
  case (Inr f1)
  then have o: "f1 = f(p \<mapsto> File Truncated)" "\<not> is_dir f p"
    by (simp_all add: open_w_Inr)
  show ?thesis
  proof (cases "write_error e p")
    case True
    with assms Inr o show ?thesis by (intro broken_off) (simp_all add: write_file_def)
  next
    case False
    with assms Inr o show ?thesis by (intro written) (auto simp: write_file_def)
  qed
qed

lemma write_file_None:
  "write_file e f p c = (f', None) \<Longrightarrow> f' = f(p \<mapsto> File c) \<and> \<not> is_dir f p"
  by (erule write_file_cases) auto

lemma save_metadata_None:
  "save_metadata e w = (w', None) \<Longrightarrow>
     w' = w\<lparr>fs := (fs w)(metadata_file w \<mapsto> File (IndexDoc (metadata w)))\<rparr>
     \<and> \<not> is_dir (fs w) (metadata_file w)"
  by (auto simp: save_metadata_def json_dump_metadata_def split: sum.splits if_splits
      dest!: open_w_Inr)

lemma save_metadata_Some:
  "save_metadata e w = (w', Some err) \<Longrightarrow>
     w' = w
     \<or> (\<not> is_dir (fs w) (metadata_file w)
         \<and> w' = w\<lparr>fs := (fs w)(metadata_file w \<mapsto> File Truncated)\<rparr>)"
  by (auto simp: save_metadata_def split: sum.splits if_splits dest!: open_w_Inr)

text \<open>
  C7. Whenever \<open>_save_metadata\<close> returns, \<open>_load_metadata\<close> returns the index that was
  saved, in every world that has the disk and the download directory the save left,
  whatever index it holds in memory (so also in a process started afterwards); and
  \<open>_load_metadata\<close> on a disk without the metadata file returns the empty index
  \<open>{'groups': [], 'total_files': 0}\<close>.
\<close>

theorem load_after_save:
  "(save_metadata e w = (w', None) \<and> fs w'' = fs w' \<and> download_dir w'' = download_dir w'
      \<longrightarrow> load_metadata w'' = Inr (metadata w))
   \<and> (fs w (metadata_file w) = None \<longrightarrow> load_metadata w = Inr empty_index)"
proof (intro conjI impI)
  assume a: "save_metadata e w = (w', None) \<and> fs w'' = fs w' \<and> download_dir w'' = download_dir w'"
  then have "save_metadata e w = (w', None)" by simp
  then have "w' = w\<lparr>fs := (fs w)(metadata_file w \<mapsto> File (IndexDoc (metadata w)))\<rparr>"
    by (simp add: save_metadata_None)
  with a have "fs w'' = (fs w)(metadata_file w \<mapsto> File (IndexDoc (metadata w)))"
    and "metadata_file w'' = metadata_file w"
    by (simp_all add: metadata_file_def)
  then show "load_metadata w'' = Inr (metadata w)"
    by (simp add: load_metadata_def)
next
  assume "fs w (metadata_file w) = None"
  then show "load_metadata w = Inr empty_index"
    by (simp add: load_metadata_def)
qed

text \<open>An index with one summary is saved; a world with the disk the save left and
  the empty index in memory loads the index with one summary.\<close>

theorem load_after_save_witness:
  "(\<exists>w'. save_metadata env_ok (fresh_world\<lparr>metadata := sample_index\<rparr>) = (w', None)
         \<and> metadata (w'\<lparr>metadata := empty_index\<rparr>) = empty_index
         \<and> load_metadata (w'\<lparr>metadata := empty_index\<rparr>) = Inr sample_index)
   \<and> fs fresh_world (metadata_file fresh_world) = None
   \<and> load_metadata fresh_world = Inr empty_index"
proof -
  obtain w' where s: "save_metadata env_ok (fresh_world\<lparr>metadata := sample_index\<rparr>) = (w', None)"
    by (simp add: save_metadata_def open_w_def is_dir_def metadata_file_def fresh_world_def
        env_ok_def)
  have n: "fs fresh_world (metadata_file fresh_world) = None"
    by (simp add: metadata_file_def fresh_world_def)
  from s n
    load_after_save [of env_ok "fresh_world\<lparr>metadata := sample_index\<rparr>" w'
      "w'\<lparr>metadata := empty_index\<rparr>"]
    load_after_save [of env_ok fresh_world w' w']
  show ?thesis by simp
qed

section \<open>Frame lemmas of the archive operation\<close>

lemma touches_refl: "touches_only_files_in gd f f"
  by (simp add: touches_only_files_in_def)

lemma touches_trans:
  "touches_only_files_in gd f f' \<Longrightarrow> touches_only_files_in gd f' f'' \<Longrightarrow>
   touches_only_files_in gd f f''"
  unfolding touches_only_files_in_def
  by (metis node.distinct(1) option.inject)

lemma touches_update:
  "\<not> is_dir f (gd @ [x]) \<Longrightarrow> touches_only_files_in gd f (f(gd @ [x] \<mapsto> File c))"
  by (auto simp: touches_only_files_in_def is_dir_def)

lemma touches_write:
  assumes "write_file e f (gd @ [x]) c = (f', r)"
  shows "touches_only_files_in gd f f'"
  using assms by (cases rule: write_file_cases) (simp_all add: touches_refl touches_update)

lemma touches_download:
  "download_to_drive e f remote (gd @ [x]) = (f', r) \<Longrightarrow> touches_only_files_in gd f f'"
  by (auto simp: download_to_drive_def touches_refl split: option.splits intro: touches_write)

lemma touches_outside: "touches_only_files_in gd f f' \<Longrightarrow> butlast p \<noteq> gd \<Longrightarrow> f' p = f p"
  unfolding touches_only_files_in_def by blast

lemma touches_Dir: "touches_only_files_in gd f f' \<Longrightarrow> f p = Some Dir \<Longrightarrow> f' p = Some Dir"
  unfolding touches_only_files_in_def by metis

lemma touches_keeps: "touches_only_files_in gd f f' \<Longrightarrow> f p \<noteq> None \<Longrightarrow> f' p \<noteq> None"
  unfolding touches_only_files_in_def by (metis option.distinct(1))

text \<open>The loop changes the file system and the log only, and the file system only by
  files directly in the group folder.\<close>

lemma process_messages_frame:
  "process_messages e gd idx ms gi w = (w', r) \<Longrightarrow>
     download_dir w' = download_dir w \<and> metadata w' = metadata w
     \<and> media_group_buffer w' = media_group_buffer w \<and> outbox w' = outbox w
     \<and> touches_only_files_in gd (fs w) (fs w')"
proof (induction ms arbitrary: idx gi w)
  case Nil
  then show ?case by (auto simp: touches_refl)
next
  case (Cons msg rest)
  show ?case
  proof (cases "photo msg = []")
    case True
    with Cons show ?thesis by (simp add: Let_def)
  next
    case False
    note ph = this
    show ?thesis
    proof (cases "get_file e (file_id (last (photo msg)))")
      case None
      with ph Cons.prems show ?thesis by (auto simp: Let_def touches_refl)
    next
      case (Some remote)
      note gf = this
      obtain f d where dl:
        "download_to_drive e (fs w) remote (gd @ [photo_filename idx remote]) = (f, d)"
        by fastforce
      then have t: "touches_only_files_in gd (fs w) f" by (rule touches_download)
      show ?thesis
      proof (cases d)
        case (Some err)
        with ph gf dl Cons.prems have "w' = w\<lparr>fs := f\<rparr>" by (simp add: Let_def)
        with t show ?thesis by simp
      next
        case None
        with ph gf dl Cons.prems
        have "process_messages e gd (idx + 1) rest
                (note_message idx msg gi\<lparr>info_files := info_files (note_message idx msg gi) @
                   [\<lparr>f_file_id = file_id (last (photo msg)),
                     f_filename = photo_filename idx remote,
                     f_size = file_size (last (photo msg)), f_width = width (last (photo msg)),
                     f_height = height (last (photo msg))\<rparr>]\<rparr>)
                (w\<lparr>fs := f, log := log w @ [LogSaved (gd @ [photo_filename idx remote])]\<rparr>) = (w', r)"
          by (simp add: Let_def)
        from Cons.IH [OF this] t show ?thesis
          by (auto intro: touches_trans)
      qed
    qed
  qed
qed

lemma note_message_count [simp]:
  "info_message_count (note_message idx msg gi) = info_message_count gi"
  "info_media_group_id (note_message idx msg gi) = info_media_group_id gi"
  "info_files (note_message idx msg gi) = info_files gi"
  by (auto simp: note_message_def Let_def split: option.splits)

lemma process_messages_info:
  "process_messages e gd idx ms gi w = (w', Inr gi') \<Longrightarrow>
     info_message_count gi' = info_message_count gi
     \<and> info_media_group_id gi' = info_media_group_id gi"
proof (induction ms arbitrary: idx gi w)
  case Nil
  then show ?case by simp
next
  case (Cons msg rest)
  then show ?case
    by (fastforce simp: Let_def split: if_splits option.splits sum.splits prod.splits)
qed

text \<open>A photo is never written to the path of the descriptor.\<close>

lemma download_not_descriptor:
  assumes "download_to_drive e f remote (gd @ [photo_filename idx remote]) = (f', r)"
  shows "f' (gd @ [''info.json'']) = f (gd @ [''info.json''])"
proof -
  have n: "gd @ [''info.json''] \<noteq> gd @ [photo_filename idx remote]"
    by (simp add: photo_filename_def)
  show ?thesis
  proof (cases "retrieve e remote")
    case None
    with assms show ?thesis by (simp add: download_to_drive_def)
  next
    case (Some bytes)
    with assms have "write_file e f (gd @ [photo_filename idx remote]) (Bytes bytes) = (f', r)"
      by (simp add: download_to_drive_def)
    then show ?thesis using n by (cases rule: write_file_cases) simp_all
  qed
qed

lemma process_messages_info_file:
  "process_messages e gd idx ms gi w = (w', r) \<Longrightarrow>
     fs w' (gd @ [''info.json'']) = fs w (gd @ [''info.json''])"
proof (induction ms arbitrary: idx gi w)
  case Nil
  then show ?case by auto
next
  case (Cons msg rest)
  show ?case
  proof (cases "photo msg = []")
    case True
    with Cons show ?thesis by (simp add: Let_def)
  next
    case False
    note ph = this
    show ?thesis
    proof (cases "get_file e (file_id (last (photo msg)))")
      case None
      with ph Cons.prems show ?thesis by (auto simp: Let_def)
    next
      case (Some remote)
      note gf = this
      obtain f d where dl:
        "download_to_drive e (fs w) remote (gd @ [photo_filename idx remote]) = (f, d)"
        by fastforce
      then have t: "f (gd @ [''info.json'']) = fs w (gd @ [''info.json''])"
        by (rule download_not_descriptor)
      show ?thesis
      proof (cases d)
        case (Some err)
        with ph gf dl Cons.prems have "w' = w\<lparr>fs := f\<rparr>" by (simp add: Let_def)
        with t show ?thesis by simp
      next
        case None
        with ph gf dl Cons.prems
        have "process_messages e gd (idx + 1) rest
                (note_message idx msg gi\<lparr>info_files := info_files (note_message idx msg gi) @
                   [\<lparr>f_file_id = file_id (last (photo msg)),
                     f_filename = photo_filename idx remote,
                     f_size = file_size (last (photo msg)), f_width = width (last (photo msg)),
                     f_height = height (last (photo msg))\<rparr>]\<rparr>)
                (w\<lparr>fs := f, log := log w @ [LogSaved (gd @ [photo_filename idx remote])]\<rparr>) = (w', r)"
          by (simp add: Let_def)
        from Cons.IH [OF this] t show ?thesis by simp
      qed
    qed
  qed
qed

text \<open>The five ways through the body of the \<open>try\<close>.\<close>

lemma save_media_group_try_cases:
  assumes "save_media_group_try e gid ms w = (w', r)"
  obtains
    (mkdir_failed) err where
      "mkdir_exist_ok e (fs w) (group_dir w) = Inl err" "w' = w" "r = Some (CreateFolder, err)"
  | (loop_failed) f1 err where
      "mkdir_exist_ok e (fs w) (group_dir w) = Inr f1"
      "process_messages e (group_dir w) 1 ms (new_group_info e gid ms) (w\<lparr>fs := f1\<rparr>) = (w', Inl err)"
      "r = Some (Download, err)"
  | (info_failed) f1 w2 gi f3 err where
      "mkdir_exist_ok e (fs w) (group_dir w) = Inr f1"
      "process_messages e (group_dir w) 1 ms (new_group_info e gid ms) (w\<lparr>fs := f1\<rparr>) = (w2, Inr gi)"
      "write_file e (fs w2) (group_dir w @ [''info.json'']) (InfoDoc gi) = (f3, Some err)"
      "w' = w2\<lparr>fs := f3\<rparr>"
      "r = Some (WriteDescriptor, err)"
  | (index_failed) f1 w2 gi f3 err where
      "mkdir_exist_ok e (fs w) (group_dir w) = Inr f1"
      "process_messages e (group_dir w) 1 ms (new_group_info e gid ms) (w\<lparr>fs := f1\<rparr>) = (w2, Inr gi)"
      "write_file e (fs w2) (group_dir w @ [''info.json'']) (InfoDoc gi) = (f3, None)"
      "save_metadata e (w2\<lparr>fs := f3, metadata := update_metadata gid (group_dir w) gi (metadata w2)\<rparr>)
         = (w', Some err)"
      "r = Some (SaveIndex, err)"
  | (saved) f1 w2 gi f3 w4 where
      "mkdir_exist_ok e (fs w) (group_dir w) = Inr f1"
      "process_messages e (group_dir w) 1 ms (new_group_info e gid ms) (w\<lparr>fs := f1\<rparr>) = (w2, Inr gi)"
      "write_file e (fs w2) (group_dir w @ [''info.json'']) (InfoDoc gi) = (f3, None)"
      "save_metadata e (w2\<lparr>fs := f3, metadata := update_metadata gid (group_dir w) gi (metadata w2)\<rparr>)
         = (w4, None)"
      "w' = w4\<lparr>log := log w4 @ [LogGroupSaved gid (group_dir w)]\<rparr>"
      "r = None"
  using assms unfolding save_media_group_try_def Let_def
  by (auto split: sum.splits prod.splits option.splits)

subsection \<open>Paths\<close>

lemma group_dir_parent [simp]: "butlast (group_dir w) = media_groups_dir w"
  by (simp add: group_dir_def)

lemma group_dir_not_root [simp]: "group_dir w \<noteq> []"
  by (simp add: group_dir_def)

lemma length_metadata_file: "length (metadata_file w) = length (download_dir w) + 1"
  by (simp add: metadata_file_def)

lemma length_group_dir: "length (group_dir w) = length (download_dir w) + 2"
  by (simp add: group_dir_def media_groups_dir_def)

text \<open>The metadata file is neither the group folder nor a file in it.\<close>

lemma metadata_file_apart:
  shows "metadata_file w \<noteq> group_dir w"
    and "butlast (metadata_file w) \<noteq> group_dir w"
    and "metadata_file w \<noteq> group_dir w @ [x]"
    and "group_dir w \<noteq> metadata_file w"
    and "group_dir w @ [x] \<noteq> metadata_file w"
proof -
  show "metadata_file w \<noteq> group_dir w"
    using length_metadata_file [of w] length_group_dir [of w] by auto
  have "butlast (metadata_file w) = download_dir w"
    by (simp add: metadata_file_def)
  then show "butlast (metadata_file w) \<noteq> group_dir w"
    using length_group_dir [of w] by auto
  have "length (group_dir w @ [x]) = length (download_dir w) + 3"
    by (simp add: length_group_dir)
  then show "metadata_file w \<noteq> group_dir w @ [x]"
    using length_metadata_file [of w] by auto
  then show "group_dir w @ [x] \<noteq> metadata_file w" by simp
  show "group_dir w \<noteq> metadata_file w"
    using length_metadata_file [of w] length_group_dir [of w] by auto
qed

lemma mkdir_Inr:
  "mkdir_exist_ok e f p = Inr f' \<Longrightarrow>
     is_dir f' p \<and> (f' = f \<or> (f p = None \<and> f' = f(p \<mapsto> Dir)))"
  by (auto simp: mkdir_exist_ok_def is_dir_def split: if_splits)

lemma mkdir_other: "mkdir_exist_ok e f p = Inr f' \<Longrightarrow> q \<noteq> p \<Longrightarrow> f' q = f q"
  by (auto dest!: mkdir_Inr)

lemma mkdir_group_dir:
  "mkdir_exist_ok e (fs w) (group_dir w) = Inr f' \<Longrightarrow> f' (group_dir w) = Some Dir"
  by (auto simp: is_dir_def dest!: mkdir_Inr)

subsection \<open>Nothing is removed\<close>

lemma keeps_all_refl: "keeps_all f f"
  by (simp add: keeps_all_def)

lemma keeps_all_trans: "keeps_all f f' \<Longrightarrow> keeps_all f' f'' \<Longrightarrow> keeps_all f f''"
  by (simp add: keeps_all_def)

lemma keeps_all_touches: "touches_only_files_in gd f f' \<Longrightarrow> keeps_all f f'"
  unfolding keeps_all_def by (blast dest: touches_Dir touches_keeps)

lemma keeps_all_mkdir: "mkdir_exist_ok e f p = Inr f' \<Longrightarrow> keeps_all f f'"
  by (auto simp: keeps_all_def dest!: mkdir_Inr)

lemma keeps_all_write:
  assumes "write_file e f p c = (f', r)"
  shows "keeps_all f f'"
  using assms by (cases rule: write_file_cases) (auto simp: keeps_all_def is_dir_def)

lemma keeps_all_save_metadata: "save_metadata e w = (w', r) \<Longrightarrow> keeps_all (fs w) (fs w')"
  by (cases r) (auto simp: keeps_all_def is_dir_def dest!: save_metadata_None save_metadata_Some)

lemma keeps_all_process:
  "process_messages e gd idx ms gi w = (w', r) \<Longrightarrow> keeps_all (fs w) (fs w')"
  by (auto dest!: process_messages_frame intro: keeps_all_touches)

lemma save_metadata_frame:
  "save_metadata e w = (w', r) \<Longrightarrow>
     download_dir w' = download_dir w \<and> metadata w' = metadata w
     \<and> media_group_buffer w' = media_group_buffer w \<and> outbox w' = outbox w"
  by (cases r) (auto dest!: save_metadata_None save_metadata_Some)

subsection \<open>What one archive operation does\<close>

lemma save_media_group_try_frame:
  assumes "save_media_group_try e gid ms w = (w', r)"
  shows "download_dir w' = download_dir w \<and> media_group_buffer w' = media_group_buffer w
         \<and> outbox w' = outbox w"
  using assms
proof (cases rule: save_media_group_try_cases)
  case (index_failed f1 w2 gi f3 err)
  then show ?thesis by (auto dest!: process_messages_frame save_metadata_frame)
next
  case (saved f1 w2 gi f3 w4)
  then show ?thesis by (auto dest!: process_messages_frame save_metadata_frame)
qed (auto dest!: process_messages_frame)

lemma save_media_group_frame:
  assumes "save_media_group e gid ms w = (w', ok)"
  shows "download_dir w' = download_dir w \<and> media_group_buffer w' = media_group_buffer w
         \<and> outbox w' = outbox w"
  using assms unfolding save_media_group_def
  by (auto split: prod.splits option.splits dest!: save_media_group_try_frame)

text \<open>The file system up to the index update: the folder is there, the metadata file
  is as before.\<close>

lemma before_index_update:
  assumes "mkdir_exist_ok e (fs w) (group_dir w) = Inr f1"
    and "process_messages e (group_dir w) idx ms gi0 (w\<lparr>fs := f1\<rparr>) = (w2, r)"
  shows "keeps_all (fs w) (fs w2)"
    and "fs w2 (group_dir w) = Some Dir"
    and "fs w2 (metadata_file w) = fs w (metadata_file w)"
    and "fs w2 (group_dir w @ [''info.json'']) = fs w (group_dir w @ [''info.json''])"
    and "metadata w2 = metadata w"
    and "download_dir w2 = download_dir w"
proof -
  from assms(2) have t: "touches_only_files_in (group_dir w) f1 (fs w2)"
    and m: "metadata w2 = metadata w" and d: "download_dir w2 = download_dir w"
    by (auto dest: process_messages_frame)
  from assms(1) have k: "keeps_all (fs w) f1" by (rule keeps_all_mkdir)
  from t have "keeps_all f1 (fs w2)" by (rule keeps_all_touches)
  with k show "keeps_all (fs w) (fs w2)" by (rule keeps_all_trans)
  from assms(1) have "f1 (group_dir w) = Some Dir" by (rule mkdir_group_dir)
  with t show "fs w2 (group_dir w) = Some Dir" by (rule touches_Dir)
  from t have "fs w2 (metadata_file w) = f1 (metadata_file w)"
    by (rule touches_outside) (rule metadata_file_apart)
  with assms(1) show "fs w2 (metadata_file w) = fs w (metadata_file w)"
    by (simp add: mkdir_other metadata_file_apart)
  from assms(2) have "fs w2 (group_dir w @ [''info.json'']) = f1 (group_dir w @ [''info.json''])"
    by (auto dest: process_messages_info_file)
  with assms(1) show "fs w2 (group_dir w @ [''info.json'']) = fs w (group_dir w @ [''info.json''])"
    by (simp add: mkdir_other)
  from m show "metadata w2 = metadata w" .
  from d show "download_dir w2 = download_dir w" .
qed

text \<open>The same after the write of the descriptor, whether it raised or not.\<close>

lemma after_descriptor_write:
  assumes "mkdir_exist_ok e (fs w) (group_dir w) = Inr f1"
    and "process_messages e (group_dir w) idx ms gi0 (w\<lparr>fs := f1\<rparr>) = (w2, r)"
    and "write_file e (fs w2) (group_dir w @ [''info.json'']) c = (f3, d)"
  shows "keeps_all (fs w) f3"
    and "f3 (group_dir w) = Some Dir"
    and "f3 (metadata_file w) = fs w (metadata_file w)"
proof -
  note b = before_index_update [OF assms(1,2)]
  from assms(3) have k: "keeps_all (fs w2) f3" by (rule keeps_all_write)
  with b(1) show "keeps_all (fs w) f3" by (rule keeps_all_trans)
  from k b(2) show "f3 (group_dir w) = Some Dir" by (simp add: keeps_all_def)
  from assms(3) have "f3 (metadata_file w) = fs w2 (metadata_file w)"
    by (cases rule: write_file_cases) (simp_all add: metadata_file_apart)
  with b(3) show "f3 (metadata_file w) = fs w (metadata_file w)" by simp
qed

lemma save_media_group_try_keeps:
  assumes "save_media_group_try e gid ms w = (w', r)"
  shows "keeps_all (fs w) (fs w')"
  using assms
proof (cases rule: save_media_group_try_cases)
  case (mkdir_failed err)
  then show ?thesis by (simp add: keeps_all_refl)
next
  case (loop_failed f1 err)
  then show ?thesis by (simp add: before_index_update(1))
next
  case (info_failed f1 w2 gi f3 err)
  from after_descriptor_write(1) [OF info_failed(1,2,3)] info_failed(4) show ?thesis by simp
next
  case (index_failed f1 w2 gi f3 err)
  from index_failed(4) have "keeps_all f3 (fs w')" by (auto dest: keeps_all_save_metadata)
  with after_descriptor_write(1) [OF index_failed(1,2,3)] show ?thesis
    by (rule keeps_all_trans)
next
  case (saved f1 w2 gi f3 w4)
  from saved(4) have "keeps_all f3 (fs w4)" by (auto dest: keeps_all_save_metadata)
  with after_descriptor_write(1) [OF saved(1,2,3)] have "keeps_all (fs w) (fs w4)"
    by (rule keeps_all_trans)
  with saved(5) show ?thesis by simp
qed

text \<open>A successful operation: the descriptor holds the group's record with the count
  of the messages passed in, the index has grown by the group's summary and the
  metadata file holds it.\<close>

lemma save_media_group_try_saved:
  assumes "save_media_group_try e gid ms w = (w', None)"
  shows "\<exists>gi. metadata w' = update_metadata gid (group_dir w) gi (metadata w)
            \<and> fs w' (group_dir w @ [''info.json'']) = Some (File (InfoDoc gi))
            \<and> info_message_count gi = length ms \<and> info_media_group_id gi = gid
            \<and> fs w' (metadata_file w) = Some (File (IndexDoc (metadata w')))
            \<and> fs w' (group_dir w) = Some Dir"
  using assms
proof (cases rule: save_media_group_try_cases)
  case (saved f1 w2 gi f3 w4)
  note b = before_index_update [OF saved(1,2)]
  note a = after_descriptor_write [OF saved(1,2,3)]
  from saved(2) have c: "info_message_count gi = length ms \<and> info_media_group_id gi = gid"
    by (auto dest!: process_messages_info simp: new_group_info_def)
  let ?w3 = "w2\<lparr>fs := f3, metadata := update_metadata gid (group_dir w) gi (metadata w2)\<rparr>"
  from b(6) have mf: "metadata_file ?w3 = metadata_file w" by (simp add: metadata_file_def)
  from saved(4) have w4: "w4 = ?w3\<lparr>fs := (fs ?w3)(metadata_file ?w3 \<mapsto> File (IndexDoc (metadata ?w3)))\<rparr>"
    by (auto dest!: save_metadata_None)
  from saved(3) have i: "f3 (group_dir w @ [''info.json'']) = Some (File (InfoDoc gi))"
    by (auto dest!: write_file_None)
  from w4 mf b(5) c i a(2) saved(5) show ?thesis
    by (auto simp: metadata_file_apart)
qed auto

text \<open>A failed operation, by the step that raised.\<close>

lemma save_media_group_try_failed:
  assumes "save_media_group_try e gid ms w = (w1, Some (st, err))"
  shows "st = CreateFolder \<longrightarrow> w1 = w"
    and "st \<noteq> CreateFolder \<longrightarrow> fs w1 (group_dir w) = Some Dir"
    and "st \<noteq> SaveIndex \<longrightarrow>
           metadata w1 = metadata w \<and> fs w1 (metadata_file w) = fs w (metadata_file w)"
    and "st = Download \<longrightarrow>
           fs w1 (group_dir w @ [''info.json'']) = fs w (group_dir w @ [''info.json''])"
    and "st = WriteDescriptor \<longrightarrow>
           fs w1 (group_dir w @ [''info.json'']) = fs w (group_dir w @ [''info.json''])
           \<or> fs w1 (group_dir w @ [''info.json'']) = Some (File Truncated)"
    and "st = SaveIndex \<longrightarrow>
           (\<exists>gi. metadata w1 = update_metadata gid (group_dir w) gi (metadata w)
               \<and> fs w1 (group_dir w @ [''info.json'']) = Some (File (InfoDoc gi)))
           \<and> (fs w1 (metadata_file w) = fs w (metadata_file w)
               \<or> fs w1 (metadata_file w) = Some (File Truncated))"
proof -
  have "(st = CreateFolder \<longrightarrow> w1 = w)
    \<and> (st \<noteq> CreateFolder \<longrightarrow> fs w1 (group_dir w) = Some Dir)
    \<and> (st \<noteq> SaveIndex \<longrightarrow>
           metadata w1 = metadata w \<and> fs w1 (metadata_file w) = fs w (metadata_file w))
    \<and> (st = Download \<longrightarrow>
           fs w1 (group_dir w @ [''info.json'']) = fs w (group_dir w @ [''info.json'']))
    \<and> (st = WriteDescriptor \<longrightarrow>
           fs w1 (group_dir w @ [''info.json'']) = fs w (group_dir w @ [''info.json''])
           \<or> fs w1 (group_dir w @ [''info.json'']) = Some (File Truncated))
    \<and> (st = SaveIndex \<longrightarrow>
           (\<exists>gi. metadata w1 = update_metadata gid (group_dir w) gi (metadata w)
               \<and> fs w1 (group_dir w @ [''info.json'']) = Some (File (InfoDoc gi)))
           \<and> (fs w1 (metadata_file w) = fs w (metadata_file w)
               \<or> fs w1 (metadata_file w) = Some (File Truncated)))"
    using assms
  proof (cases rule: save_media_group_try_cases)
    case (mkdir_failed err')
    then show ?thesis by simp
  next
    case (loop_failed f1 err')
    note b = before_index_update [OF loop_failed(1,2)]
    from loop_failed(3) b show ?thesis by simp
  next
    case (info_failed f1 w2 gi f3 err')
    note b = before_index_update [OF info_failed(1,2)]
    note a = after_descriptor_write [OF info_failed(1,2,3)]
    from info_failed(3) have
      "f3 (group_dir w @ [''info.json'']) = fs w2 (group_dir w @ [''info.json''])
       \<or> f3 (group_dir w @ [''info.json'']) = Some (File Truncated)"
      by (cases rule: write_file_cases) simp_all
    with info_failed(4,5) a b show ?thesis by auto
  next
    case (index_failed f1 w2 gi f3 err')
    note b = before_index_update [OF index_failed(1,2)]
    note a = after_descriptor_write [OF index_failed(1,2,3)]
    let ?w3 = "w2\<lparr>fs := f3, metadata := update_metadata gid (group_dir w) gi (metadata w2)\<rparr>"
    from b(6) have mf: "metadata_file ?w3 = metadata_file w" by (simp add: metadata_file_def)
    from index_failed(3) have i: "f3 (group_dir w @ [''info.json'']) = Some (File (InfoDoc gi))"
      by (auto dest!: write_file_None)
    from index_failed(4) have
      "w1 = ?w3 \<or> w1 = ?w3\<lparr>fs := (fs ?w3)(metadata_file ?w3 \<mapsto> File Truncated)\<rparr>"
      by (auto dest!: save_metadata_Some)
    with mf i a b index_failed(5) show ?thesis
      by (auto simp: metadata_file_apart)
  next
    case (saved f1 w2 gi f3 w4)
    then show ?thesis by simp
  qed
  then show "st = CreateFolder \<longrightarrow> w1 = w"
    and "st \<noteq> CreateFolder \<longrightarrow> fs w1 (group_dir w) = Some Dir"
    and "st \<noteq> SaveIndex \<longrightarrow>
           metadata w1 = metadata w \<and> fs w1 (metadata_file w) = fs w (metadata_file w)"
    and "st = Download \<longrightarrow>
           fs w1 (group_dir w @ [''info.json'']) = fs w (group_dir w @ [''info.json''])"
    and "st = WriteDescriptor \<longrightarrow>
           fs w1 (group_dir w @ [''info.json'']) = fs w (group_dir w @ [''info.json''])
           \<or> fs w1 (group_dir w @ [''info.json'']) = Some (File Truncated)"
    and "st = SaveIndex \<longrightarrow>
           (\<exists>gi. metadata w1 = update_metadata gid (group_dir w) gi (metadata w)
               \<and> fs w1 (group_dir w @ [''info.json'']) = Some (File (InfoDoc gi)))
           \<and> (fs w1 (metadata_file w) = fs w (metadata_file w)
               \<or> fs w1 (metadata_file w) = Some (File Truncated))"
    by blast+
qed

section \<open>Failure of an archive operation\<close>




section \<open>The flush of a buffered group\<close>

lemma getitem_Some [simp]: "b gid = Some ms \<Longrightarrow> getitem b gid = (b, ms)"
  by (simp add: getitem_def)

text \<open>What the handler does after the sleep on a buffer entry that is not empty.\<close>

lemma handle_media_wake_flush:
  assumes "media_group_buffer w (the_group_id m) = Some ms" and "ms \<noteq> []"
    and "save_media_group e (the_group_id m) ms w = (w1, ok)"
  shows "handle_media_wake e m w =
     (if ok then
        (if reply_ok e (message_id m)
         then Done (w1\<lparr>outbox := outbox w @ [(message_id m, AlbumSaved (length ms))],
                       media_group_buffer := (media_group_buffer w)(the_group_id m := None)\<rparr>)
         else Raised w1 TelegramError)
      else Done (w1\<lparr>media_group_buffer := (media_group_buffer w)(the_group_id m := None)\<rparr>))"
proof -
  from assms(3) have f: "media_group_buffer w1 = media_group_buffer w" "outbox w1 = outbox w"
    by (auto dest: save_media_group_frame)
  show ?thesis
    using assms f by (simp add: handle_media_wake_def reply_text_def)
qed

text \<open>
  C5. Whatever exception ends the body of \<open>save_media_group\<close>, the call returns
  \<open>False\<close> (and logs the group id with the exception); and when the archive operation
  of a flush returns \<open>False\<close>, the handler ends without an exception, with the group's
  key deleted from the buffer.
\<close>

theorem archive_failure_is_caught:
  "(save_media_group_try e gid ms w = (w1, Some (st, err)) \<longrightarrow>
      save_media_group e gid ms w = (w1\<lparr>log := log w1 @ [LogError gid err]\<rparr>, False))
   \<and> (media_group_buffer w (the_group_id m) = Some ms \<and> ms \<noteq> []
        \<and> save_media_group e (the_group_id m) ms w = (w', False) \<longrightarrow>
      handle_media_wake e m w =
        Done (w'\<lparr>media_group_buffer := (media_group_buffer w)(the_group_id m := None)\<rparr>)
      \<and> media_group_buffer (world_of (handle_media_wake e m w)) (the_group_id m) = None)"
proof (intro conjI impI)
  assume "save_media_group_try e gid ms w = (w1, Some (st, err))"
  then show "save_media_group e gid ms w = (w1\<lparr>log := log w1 @ [LogError gid err]\<rparr>, False)"
    by (simp add: save_media_group_def)
next
  assume a: "media_group_buffer w (the_group_id m) = Some ms \<and> ms \<noteq> []
        \<and> save_media_group e (the_group_id m) ms w = (w', False)"
  then have "media_group_buffer w (the_group_id m) = Some ms" and "ms \<noteq> []"
    and "save_media_group e (the_group_id m) ms w = (w', False)"
    by simp_all
  then show d: "handle_media_wake e m w =
        Done (w'\<lparr>media_group_buffer := (media_group_buffer w)(the_group_id m := None)\<rparr>)"
    by (simp add: handle_media_wake_flush)
  then show "media_group_buffer (world_of (handle_media_wake e m w)) (the_group_id m) = None"
    by simp
qed

theorem archive_failure_is_caught_witness:
  "snd (save_media_group_try env_second_fails ''album'' album3
          (fresh_world\<lparr>media_group_buffer := [''album'' \<mapsto> album3]\<rparr>))
       = Some (Download, TelegramError)
   \<and> snd (save_media_group env_second_fails ''album'' album3
          (fresh_world\<lparr>media_group_buffer := [''album'' \<mapsto> album3]\<rparr>)) = False
   \<and> media_group_buffer
        (world_of (handle_media_wake env_second_fails (photo_message 1 (Some ''album''))
           (fresh_world\<lparr>media_group_buffer := [''album'' \<mapsto> album3]\<rparr>))) ''album'' = None"
proof -
  let ?w = "fresh_world\<lparr>media_group_buffer := [''album'' \<mapsto> album3]\<rparr>"
  let ?m = "photo_message 1 (Some ''album'')"
  have g: "the_group_id ?m = ''album''"
    by (simp add: the_group_id_def photo_message_def)
  have r: "snd (save_media_group_try env_second_fails ''album'' album3 ?w)
      = Some (Download, TelegramError)"
    by code_simp
  then have t: "save_media_group_try env_second_fails ''album'' album3 ?w
      = (fst (save_media_group_try env_second_fails ''album'' album3 ?w),
         Some (Download, TelegramError))"
    by (simp add: prod_eq_iff)
  have b: "media_group_buffer ?w (the_group_id ?m) = Some album3 \<and> album3 \<noteq> []"
    by (simp add: g album3_def)
  from archive_failure_is_caught
    [where e = env_second_fails and gid = "''album''" and ms = album3 and w = ?w
      and ?w1.0 = "fst (save_media_group_try env_second_fails ''album'' album3 ?w)"
      and st = Download and err = TelegramError and m = ?m
      and w' = "fst (save_media_group env_second_fails ''album'' album3 ?w)"] t b g r
  show ?thesis
    by (simp add: prod_eq_iff)
qed

text \<open>
  C4, as the code has it. A flush sends one acknowledgement, with the number of the
  buffered messages, exactly when the archive operation returned \<open>True\<close> (and the
  reply is delivered); when the archive operation returned \<open>False\<close> it sends none.
\<close>

theorem flush_acknowledgement:
  assumes "media_group_buffer w (the_group_id m) = Some ms" and "ms \<noteq> []"
    and "save_media_group e (the_group_id m) ms w = (w1, ok)"
  shows "outbox (world_of (handle_media_wake e m w)) =
           outbox w @ (if ok \<and> reply_ok e (message_id m)
                       then [(message_id m, AlbumSaved (length ms))] else [])"
proof -
  from assms(3) have "outbox w1 = outbox w"
    by (auto dest: save_media_group_frame)
  with assms show ?thesis
    by (simp add: handle_media_wake_flush)
qed

text \<open>A flush whose archive operation fails: the flush is completed (the key is gone
  from the buffer) and no acknowledgement was sent.\<close>

theorem flush_without_acknowledgement:
  "snd (save_media_group env_second_fails ''album'' album3
          (fresh_world\<lparr>media_group_buffer := [''album'' \<mapsto> album3]\<rparr>)) = False
   \<and> media_group_buffer
        (world_of (handle_media_wake env_second_fails (photo_message 1 (Some ''album''))
           (fresh_world\<lparr>media_group_buffer := [''album'' \<mapsto> album3]\<rparr>))) ''album'' = None
   \<and> outbox
        (world_of (handle_media_wake env_second_fails (photo_message 1 (Some ''album''))
           (fresh_world\<lparr>media_group_buffer := [''album'' \<mapsto> album3]\<rparr>))) = []"
  by code_simp

theorem flush_acknowledgement_witness:
  "media_group_buffer (fresh_world\<lparr>media_group_buffer := [''album'' \<mapsto> album3]\<rparr>) ''album''
     = Some album3
   \<and> snd (save_media_group env_ok ''album'' album3
          (fresh_world\<lparr>media_group_buffer := [''album'' \<mapsto> album3]\<rparr>)) = True
   \<and> outbox (world_of (handle_media_wake env_ok (photo_message 1 (Some ''album''))
          (fresh_world\<lparr>media_group_buffer := [''album'' \<mapsto> album3]\<rparr>))) = [(1, AlbumSaved 3)]"
proof -
  let ?w = "fresh_world\<lparr>media_group_buffer := [''album'' \<mapsto> album3]\<rparr>"
  let ?m = "photo_message 1 (Some ''album'')"
  have g: "the_group_id ?m = ''album''"
    by (simp add: the_group_id_def photo_message_def)
  have r: "snd (save_media_group env_ok ''album'' album3 ?w) = True"
    by code_simp
  then have s: "save_media_group env_ok (the_group_id ?m) album3 ?w
      = (fst (save_media_group env_ok ''album'' album3 ?w), True)"
    by (simp add: prod_eq_iff g)
  have b: "media_group_buffer ?w (the_group_id ?m) = Some album3" "album3 \<noteq> []"
    by (simp_all add: g album3_def)
  have o: "outbox ?w = []" "reply_ok env_ok (message_id ?m)" "message_id ?m = 1" "length album3 = 3"
    by (simp_all add: fresh_world_def env_ok_def photo_message_def album3_def)
  from flush_acknowledgement [OF b s] r o b g show ?thesis
    by simp
qed

section \<open>The index over a sequence of archive operations\<close>

lemma index_ok_empty: "index_ok empty_index"
  by (simp add: index_ok_def empty_index_def)

lemma index_ok_update: "index_ok m \<Longrightarrow> index_ok (update_metadata gid gd gi m)"
  by (simp add: index_ok_def update_metadata_def summary_of_def)

lemma groups_update:
  "groups (update_metadata gid gd gi m) = groups m @ [summary_of gid gd gi]"
  by (simp add: update_metadata_def)

text \<open>The index in memory after the body of the \<open>try\<close>: with one more summary when the
  body ends without an exception or with one of \<open>_save_metadata\<close>, as before when
  another step raises.\<close>

lemma save_media_group_try_metadata:
  assumes "save_media_group_try e gid ms w = (w1, r)"
  shows "(r = None \<or> (\<exists>err. r = Some (SaveIndex, err))) \<longrightarrow>
           (\<exists>gi. metadata w1 = update_metadata gid (group_dir w) gi (metadata w))"
    and "(\<exists>st err. r = Some (st, err) \<and> st \<noteq> SaveIndex) \<longrightarrow> metadata w1 = metadata w"
proof -
  show "(r = None \<or> (\<exists>err. r = Some (SaveIndex, err))) \<longrightarrow>
           (\<exists>gi. metadata w1 = update_metadata gid (group_dir w) gi (metadata w))"
  proof (cases r)
    case None
    with assms save_media_group_try_saved [of e gid ms w w1] show ?thesis by auto
  next
    case (Some p)
    obtain st err where "p = (st, err)" by (cases p)
    with Some assms save_media_group_try_failed(6) [of e gid ms w w1 st err] show ?thesis
      by auto
  qed
  show "(\<exists>st err. r = Some (st, err) \<and> st \<noteq> SaveIndex) \<longrightarrow> metadata w1 = metadata w"
    using assms save_media_group_try_failed(3) [of e gid ms w w1] by auto
qed

text \<open>\<open>save_media_group\<close> leaves the index of the body of its \<open>try\<close>.\<close>

lemma save_media_group_of_try:
  assumes "save_media_group_try e gid ms w = (w1, r)"
  shows "\<exists>w'. save_media_group e gid ms w = (w', r = None) \<and> metadata w' = metadata w1
           \<and> fs w' = fs w1"
  using assms by (cases r) (auto simp: save_media_group_def)

lemma save_media_group_try_index_ok:
  assumes "save_media_group_try e gid ms w = (w1, r)" and "index_ok (metadata w)"
  shows "index_ok (metadata w1)"
proof (cases "\<exists>st err. r = Some (st, err) \<and> st \<noteq> SaveIndex")
  case True
  with save_media_group_try_metadata(2) [OF assms(1)] assms(2) show ?thesis by simp
next
  case False
  then have "r = None \<or> (\<exists>err. r = Some (SaveIndex, err))"
    by (cases r) auto
  with save_media_group_try_metadata(1) [OF assms(1)] assms(2) show ?thesis
    by (auto simp: index_ok_update)
qed

lemma save_media_group_index_ok:
  assumes "save_media_group e gid ms w = (w', ok)" and "index_ok (metadata w)"
  shows "index_ok (metadata w')"
proof -
  obtain w1 r where t: "save_media_group_try e gid ms w = (w1, r)" by fastforce
  from save_media_group_of_try [OF t] assms(1) have "metadata w' = metadata w1" by auto
  with save_media_group_try_index_ok [OF t assms(2)] show ?thesis by simp
qed

lemma archive_all_index_ok:
  "archive_all reqs w = (w', oks) \<Longrightarrow> index_ok (metadata w) \<Longrightarrow> index_ok (metadata w')"
proof (induction reqs arbitrary: w w' oks)
  case Nil
  then show ?case by simp
next
  case (Cons req reqs)
  obtain e gid ms where req: "req = (e, gid, ms)" by (cases req)
  obtain w1 ok where s: "save_media_group e gid ms w = (w1, ok)" by fastforce
  obtain w2 oks' where r: "archive_all reqs w1 = (w2, oks')" by fastforce
  from Cons.prems(1) req s r have "w' = w2" by simp
  moreover from s Cons.prems(2) have "index_ok (metadata w1)" by (rule save_media_group_index_ok)
  ultimately show ?case using Cons.IH [OF r] by simp
qed

text \<open>
  C3, as the code has it. After any sequence of archive operations from the empty
  index, successful or failed, the counter \<open>total_files\<close> is the sum of the
  \<open>files_count\<close> of the summaries, and so it is after one more operation. That
  operation leaves the list of summaries as it is, or appends one summary to it: it
  appends the summary of the group when it succeeds; it appends none when it fails
  at the creation of the folder, in the loop or at the write of the descriptor; and
  when it fails at \<open>_save_metadata\<close>, the summary is appended already.
\<close>

theorem index_invariant:
  assumes "metadata w0 = empty_index"
    and "archive_all reqs w0 = (w, oks)"
    and "save_media_group_try e gid ms w = (w1, r)"
  shows "index_ok (metadata w) \<and> index_ok (metadata w1)
    \<and> (\<exists>w'. save_media_group e gid ms w = (w', r = None) \<and> metadata w' = metadata w1)
    \<and> (groups (metadata w1) = groups (metadata w)
        \<or> (\<exists>s. groups (metadata w1) = groups (metadata w) @ [s]))
    \<and> (r = None \<longrightarrow> (\<exists>s. groups (metadata w1) = groups (metadata w) @ [s] \<and> group_id s = gid))
    \<and> (\<forall>st err. r = Some (st, err) \<and> st \<noteq> SaveIndex \<longrightarrow>
          groups (metadata w1) = groups (metadata w))
    \<and> (\<forall>err. r = Some (SaveIndex, err) \<longrightarrow>
          (\<exists>s. groups (metadata w1) = groups (metadata w) @ [s] \<and> group_id s = gid))"
proof -
  from assms(1) have "index_ok (metadata w0)" by (simp add: index_ok_empty)
  with assms(2) have i: "index_ok (metadata w)" by (rule archive_all_index_ok)
  with assms(3) have i': "index_ok (metadata w1)" by (rule save_media_group_try_index_ok)
  from save_media_group_of_try [OF assms(3)]
  have s: "\<exists>w'. save_media_group e gid ms w = (w', r = None) \<and> metadata w' = metadata w1"
    by blast
  note m = save_media_group_try_metadata [OF assms(3)]
  have a: "r = None \<longrightarrow> (\<exists>s. groups (metadata w1) = groups (metadata w) @ [s] \<and> group_id s = gid)"
    using m(1) by (auto simp: groups_update summary_of_def)
  have b: "\<forall>st err. r = Some (st, err) \<and> st \<noteq> SaveIndex \<longrightarrow>
          groups (metadata w1) = groups (metadata w)"
    using m(2) by auto
  have c: "\<forall>err. r = Some (SaveIndex, err) \<longrightarrow>
          (\<exists>s. groups (metadata w1) = groups (metadata w) @ [s] \<and> group_id s = gid)"
    using m(1) by (auto simp: groups_update summary_of_def)
  have d: "groups (metadata w1) = groups (metadata w)
        \<or> (\<exists>s. groups (metadata w1) = groups (metadata w) @ [s])"
  proof (cases r)
    case None
    with a show ?thesis by blast
  next
    case (Some p)
    obtain st err where "p = (st, err)" by (cases p)
    with Some b c show ?thesis by (cases "st = SaveIndex") auto
  qed
  from i i' s a b c d show ?thesis by blast
qed

text \<open>An archive operation that fails at the write of the metadata file: it returns
  \<open>False\<close>, and the list of summaries, empty before, holds the group's summary.\<close>

theorem failed_archive_appends_summary:
  "snd (save_media_group env_index_denied ''album'' album3 fresh_world) = False
   \<and> groups (metadata fresh_world) = []
   \<and> map group_id (groups (metadata (fst (save_media_group env_index_denied ''album'' album3
        fresh_world)))) = [''album'']"
  by code_simp

theorem index_invariant_witness:
  "metadata fresh_world = empty_index
   \<and> snd (archive_all [(env_second_fails, ''album'', album3), (env_ok, ''album'', album3)]
          fresh_world) = [False, True]
   \<and> snd (save_media_group_try env_index_full ''single_9'' [photo_message 9 None]
          (fst (archive_all [(env_second_fails, ''album'', album3), (env_ok, ''album'', album3)]
             fresh_world))) = Some (SaveIndex, OSError)
   \<and> index_ok (metadata (fst (save_media_group_try env_index_full ''single_9''
          [photo_message 9 None]
          (fst (archive_all [(env_second_fails, ''album'', album3), (env_ok, ''album'', album3)]
             fresh_world)))))
   \<and> length (groups (metadata (fst (archive_all
          [(env_second_fails, ''album'', album3), (env_ok, ''album'', album3)] fresh_world)))) = 1
   \<and> length (groups (metadata (fst (save_media_group_try env_index_full ''single_9''
          [photo_message 9 None]
          (fst (archive_all [(env_second_fails, ''album'', album3), (env_ok, ''album'', album3)]
             fresh_world)))))) = 2"
proof -
  let ?reqs = "[(env_second_fails, ''album'', album3), (env_ok, ''album'', album3)]"
  define w where "w = fst (archive_all ?reqs fresh_world)"
  define w1 where "w1 = fst (save_media_group_try env_index_full ''single_9'' [photo_message 9 None] w)"
  have a: "metadata fresh_world = empty_index"
    by (simp add: fresh_world_def)
  have o: "snd (archive_all ?reqs fresh_world) = [False, True]"
    by code_simp
  then have b: "archive_all ?reqs fresh_world = (w, [False, True])"
    by (simp add: prod_eq_iff w_def)
  have "snd (save_media_group_try env_index_full ''single_9'' [photo_message 9 None]
          (fst (archive_all ?reqs fresh_world))) = Some (SaveIndex, OSError)"
    by code_simp
  then have t: "snd (save_media_group_try env_index_full ''single_9'' [photo_message 9 None] w)
      = Some (SaveIndex, OSError)"
    by (simp add: w_def)
  then have c: "save_media_group_try env_index_full ''single_9'' [photo_message 9 None] w
      = (w1, Some (SaveIndex, OSError))"
    by (simp add: prod_eq_iff w1_def)
  have l: "length (groups (metadata (fst (archive_all ?reqs fresh_world)))) = 1"
    by code_simp
  from index_invariant [OF a b c] a o t l show ?thesis
    unfolding w1_def w_def by auto
qed

section \<open>Sequence numbers and folders\<close>

lemma save_media_group_keeps:
  "save_media_group e gid ms w = (w', ok) \<Longrightarrow> keeps_all (fs w) (fs w')"
  by (auto simp: save_media_group_def split: prod.splits option.splits
      dest!: save_media_group_try_keeps)

lemma save_media_group_True:
  assumes "save_media_group e gid ms w = (w', True)"
  shows "\<exists>gi. metadata w' = update_metadata gid (group_dir w) gi (metadata w)
            \<and> fs w' (group_dir w @ [''info.json'']) = Some (File (InfoDoc gi))
            \<and> info_message_count gi = length ms \<and> info_media_group_id gi = gid
            \<and> fs w' (metadata_file w) = Some (File (IndexDoc (metadata w')))
            \<and> fs w' (group_dir w) = Some Dir"
proof -
  from assms have "save_media_group_try e gid ms w = (w', None)"
    by (auto simp: save_media_group_def split: prod.splits option.splits)
  then show ?thesis by (rule save_media_group_try_saved)
qed

lemma archive_all_frame:
  "archive_all reqs w = (w', oks) \<Longrightarrow>
     download_dir w' = download_dir w \<and> keeps_all (fs w) (fs w') \<and> length oks = length reqs"
proof (induction reqs arbitrary: w w' oks)
  case Nil
  then show ?case by (auto simp: keeps_all_refl)
next
  case (Cons req reqs)
  obtain e gid ms where req: "req = (e, gid, ms)" by (cases req)
  obtain w1 ok where s: "save_media_group e gid ms w = (w1, ok)" by fastforce
  obtain w2 oks' where r: "archive_all reqs w1 = (w2, oks')" by fastforce
  from Cons.prems req s r have e: "w' = w2" "oks = ok # oks'" by simp_all
  from s have "download_dir w1 = download_dir w" "keeps_all (fs w) (fs w1)"
    by (auto dest: save_media_group_frame save_media_group_keeps)
  with Cons.IH [OF r] e show ?case
    by (auto intro: keeps_all_trans)
qed

lemma folder_summary_of: "folder (summary_of gid (group_dir w) gi) = group_folder (group_count w)"
  by (simp add: summary_of_def group_dir_def)

text \<open>A run of operations that all succeed numbers its folders from \<open>group_count\<close> on,
  with no gap.\<close>

lemma archive_all_success:
  "archive_all reqs w = (w', oks) \<Longrightarrow> \<forall>b\<in>set oks. b \<Longrightarrow>
     map folder (groups (metadata w')) =
       map folder (groups (metadata w))
         @ map group_folder [group_count w ..< group_count w + length reqs]
     \<and> (\<forall>n\<in>{group_count w ..< group_count w + length reqs}.
          fs w' (media_groups_dir w @ [group_folder n]) = Some Dir)"
proof (induction reqs arbitrary: w w' oks)
  case Nil
  then show ?case by simp
next
  case (Cons req reqs)
  obtain e gid ms where req: "req = (e, gid, ms)" by (cases req)
  obtain w1 ok where s: "save_media_group e gid ms w = (w1, ok)" by fastforce
  obtain w2 oks' where r: "archive_all reqs w1 = (w2, oks')" by fastforce
  from Cons.prems(1) req s r have e: "w' = w2" "oks = ok # oks'" by simp_all
  with Cons.prems(2) have ok: "ok" and oks': "\<forall>b\<in>set oks'. b" by auto
  from s ok obtain gi where
    m: "metadata w1 = update_metadata gid (group_dir w) gi (metadata w)"
    and d: "fs w1 (group_dir w) = Some Dir"
    by (auto dest!: save_media_group_True)
  from m have gc: "group_count w1 = group_count w + 1"
    by (simp add: group_count_def groups_update)
  from s have dd: "download_dir w1 = download_dir w" by (auto dest: save_media_group_frame)
  then have mg: "media_groups_dir w1 = media_groups_dir w" by (simp add: media_groups_dir_def)
  from r have k: "keeps_all (fs w1) (fs w2)" by (auto dest: archive_all_frame)
  from Cons.IH [OF r oks'] gc mg have
    ih1: "map folder (groups (metadata w2)) =
       map folder (groups (metadata w1))
         @ map group_folder [group_count w + 1 ..< group_count w + 1 + length reqs]"
    and ih2: "\<forall>n\<in>{group_count w + 1 ..< group_count w + 1 + length reqs}.
          fs w2 (media_groups_dir w @ [group_folder n]) = Some Dir"
    by simp_all
  have u: "[group_count w ..< group_count w + length (req # reqs)] =
             group_count w # [group_count w + 1 ..< group_count w + 1 + length reqs]"
    using upt_rec [of "group_count w" "group_count w + length (req # reqs)"] by simp
  from ih1 m have "map folder (groups (metadata w2)) =
       map folder (groups (metadata w))
         @ map group_folder [group_count w ..< group_count w + length (req # reqs)]"
    unfolding u by (simp add: groups_update folder_summary_of)
  moreover have "\<forall>n\<in>{group_count w ..< group_count w + length (req # reqs)}.
          fs w2 (media_groups_dir w @ [group_folder n]) = Some Dir"
  proof
    fix n
    assume n: "n \<in> {group_count w ..< group_count w + length (req # reqs)}"
    show "fs w2 (media_groups_dir w @ [group_folder n]) = Some Dir"
    proof (cases "n = group_count w")
      case True
      with d have "fs w1 (media_groups_dir w @ [group_folder n]) = Some Dir"
        by (simp add: group_dir_def)
      with k show ?thesis by (simp add: keeps_all_def)
    next
      case False
      with n have "n \<in> {group_count w + 1 ..< group_count w + 1 + length reqs}" by auto
      with ih2 show ?thesis by blast
    qed
  qed
  ultimately show ?case using e by simp
qed

text \<open>
  C6. From the empty index, after \<open>N\<close> archive operations that were run one after the
  other and all returned \<open>True\<close>: the next operation computes the sequence number
  \<open>N + 1\<close>; the folders recorded in the index are \<open>group_0001\<close>, \<open>group_0002\<close>, ... up to
  number \<open>N\<close>, in this order (the \<open>k\<close>-th group has number \<open>k\<close>); and each of these folders
  is a directory under \<open>media_groups\<close>.
\<close>

theorem sequence_numbering:
  assumes "metadata w = empty_index"
    and "archive_all reqs w = (w', oks)"
    and "\<forall>b\<in>set oks. b"
  shows "group_count w' = length reqs + 1
    \<and> map folder (groups (metadata w')) = map group_folder [1 ..< length reqs + 1]
    \<and> (\<forall>n\<in>{1 ..< length reqs + 1}. fs w' (media_groups_dir w @ [group_folder n]) = Some Dir)"
proof -
  from assms(1) have g: "group_count w = 1" "groups (metadata w) = []"
    by (simp_all add: group_count_def empty_index_def)
  from archive_all_success [OF assms(2,3)] g
  have f: "map folder (groups (metadata w')) = map group_folder [1 ..< length reqs + 1]"
    and d: "\<forall>n\<in>{1 ..< length reqs + 1}. fs w' (media_groups_dir w @ [group_folder n]) = Some Dir"
    by simp_all
  from f have "length (groups (metadata w')) = length reqs"
    by (metis add_diff_cancel_right' length_map length_upt)
  then have "group_count w' = length reqs + 1" by (simp add: group_count_def)
  with f d show ?thesis by simp
qed

theorem sequence_numbering_witness:
  "metadata fresh_world = empty_index
   \<and> snd (archive_all [(env_ok, ''album'', album3), (env_ok, ''single_9'', [photo_message 9 None])]
          fresh_world) = [True, True]
   \<and> group_count (fst (archive_all
        [(env_ok, ''album'', album3), (env_ok, ''single_9'', [photo_message 9 None])]
        fresh_world)) = 3
   \<and> map folder (groups (metadata (fst (archive_all
        [(env_ok, ''album'', album3), (env_ok, ''single_9'', [photo_message 9 None])]
        fresh_world)))) = [''group_0001'', ''group_0002'']
   \<and> fs (fst (archive_all
        [(env_ok, ''album'', album3), (env_ok, ''single_9'', [photo_message 9 None])]
        fresh_world)) [''downloads'', ''media_groups'', ''group_0002''] = Some Dir"
proof -
  let ?reqs = "[(env_ok, ''album'', album3), (env_ok, ''single_9'', [photo_message 9 None])]"
  have a: "metadata fresh_world = empty_index"
    by (simp add: fresh_world_def)
  have o: "snd (archive_all ?reqs fresh_world) = [True, True]"
    by code_simp
  then have b: "archive_all ?reqs fresh_world = (fst (archive_all ?reqs fresh_world), [True, True])"
    by (simp add: prod_eq_iff)
  have c: "\<forall>b\<in>set [True, True]. b" by simp
  have u: "[1 ..< length ?reqs + 1] = [1, 2]" by (simp add: upt_conv_Cons)
  have n: "map group_folder [1, 2] = [''group_0001'', ''group_0002'']" by code_simp
  have p: "media_groups_dir fresh_world @ [group_folder 2]
             = [''downloads'', ''media_groups'', ''group_0002'']"
    by code_simp
  from sequence_numbering [OF a b c] have
    "group_count (fst (archive_all ?reqs fresh_world)) = 3"
    "map folder (groups (metadata (fst (archive_all ?reqs fresh_world)))) = map group_folder [1, 2]"
    "fs (fst (archive_all ?reqs fresh_world)) (media_groups_dir fresh_world @ [group_folder 2])
       = Some Dir"
    unfolding u by simp_all
  with a o n p show ?thesis by simp
qed

section \<open>The folder of a failed attempt\<close>

text \<open>
  C10, as the code has it. When an archive attempt fails after it has created its
  group folder and before it updates the index, that is in the loop (a \<open>get_file\<close> or
  a download) or at the write of the descriptor, the index in memory is what it was,
  so the next attempt computes the same sequence number and the same folder;
  \<open>mkdir(exist_ok=True)\<close> accepts the folder as it is; the next attempt removes
  nothing of what the failed one left there; and when it succeeds, its descriptor
  lies in that folder and its summary names that folder.
\<close>

theorem failed_attempt_folder_reused:
  assumes "save_media_group_try e1 gid1 ms1 w = (w1, Some (st, err))"
    and "st = Download \<or> st = WriteDescriptor"
    and "save_media_group e2 gid2 ms2 (w1\<lparr>log := log w1 @ [LogError gid1 err]\<rparr>) = (w2, ok)"
  shows "save_media_group e1 gid1 ms1 w = (w1\<lparr>log := log w1 @ [LogError gid1 err]\<rparr>, False)
    \<and> fs w1 (group_dir w) = Some Dir
    \<and> metadata w1 = metadata w
    \<and> group_count (w1\<lparr>log := log w1 @ [LogError gid1 err]\<rparr>) = group_count w
    \<and> group_dir (w1\<lparr>log := log w1 @ [LogError gid1 err]\<rparr>) = group_dir w
    \<and> mkdir_exist_ok e2 (fs w1) (group_dir w) = Inr (fs w1)
    \<and> keeps_all (fs w1) (fs w2)
    \<and> (ok \<longrightarrow> (\<exists>gi. fs w2 (group_dir w @ [''info.json'']) = Some (File (InfoDoc gi))
                   \<and> info_media_group_id gi = gid2
                   \<and> groups (metadata w2) = groups (metadata w) @ [summary_of gid2 (group_dir w) gi]
                   \<and> folder (summary_of gid2 (group_dir w) gi) = group_folder (group_count w)))"
proof -
  let ?w1 = "w1\<lparr>log := log w1 @ [LogError gid1 err]\<rparr>"
  have r: "save_media_group e1 gid1 ms1 w = (?w1, False)"
    using assms(1) by (simp add: save_media_group_def)
  from assms(2) have n: "st \<noteq> SaveIndex" "st \<noteq> CreateFolder" by auto
  from save_media_group_try_failed(3) [OF assms(1)] n
  have m: "metadata w1 = metadata w" by simp
  from assms(1) have dd: "download_dir w1 = download_dir w"
    by (auto dest: save_media_group_try_frame)
  from m have gc: "group_count ?w1 = group_count w" by (simp add: group_count_def)
  with dd have gd: "group_dir ?w1 = group_dir w"
    by (simp add: group_dir_def media_groups_dir_def)
  from save_media_group_try_failed(2) [OF assms(1)] n
  have d: "fs w1 (group_dir w) = Some Dir" by simp
  then have mk: "mkdir_exist_ok e2 (fs w1) (group_dir w) = Inr (fs w1)"
    by (simp add: mkdir_exist_ok_def is_dir_def)
  from assms(3) have k: "keeps_all (fs w1) (fs w2)"
    by (auto dest: save_media_group_keeps)
  have s: "ok \<longrightarrow> (\<exists>gi. fs w2 (group_dir w @ [''info.json'']) = Some (File (InfoDoc gi))
                   \<and> info_media_group_id gi = gid2
                   \<and> groups (metadata w2) = groups (metadata w) @ [summary_of gid2 (group_dir w) gi]
                   \<and> folder (summary_of gid2 (group_dir w) gi) = group_folder (group_count w))"
  proof
    assume ok
    with assms(3) have "save_media_group e2 gid2 ms2 ?w1 = (w2, True)" by simp
    from save_media_group_True [OF this] gd m
    show "\<exists>gi. fs w2 (group_dir w @ [''info.json'']) = Some (File (InfoDoc gi))
                   \<and> info_media_group_id gi = gid2
                   \<and> groups (metadata w2) = groups (metadata w) @ [summary_of gid2 (group_dir w) gi]
                   \<and> folder (summary_of gid2 (group_dir w) gi) = group_folder (group_count w)"
      by (auto simp: groups_update folder_summary_of)
  qed
  from r d m gc gd mk k s show ?thesis by simp
qed

text \<open>An attempt that fails after it has created its folder, at the write of the
  metadata file: the index in memory has grown, and the next attempt computes the
  sequence number 2 and another folder.\<close>

theorem failed_attempt_other_folder:
  "snd (save_media_group env_index_denied ''album'' album3 fresh_world) = False
   \<and> fs (fst (save_media_group env_index_denied ''album'' album3 fresh_world))
        [''downloads'', ''media_groups'', ''group_0001''] = Some Dir
   \<and> group_count fresh_world = 1
   \<and> group_count (fst (save_media_group env_index_denied ''album'' album3 fresh_world)) = 2
   \<and> group_dir (fst (save_media_group env_index_denied ''album'' album3 fresh_world))
        = [''downloads'', ''media_groups'', ''group_0002'']"
  by code_simp

text \<open>The third download of an album fails; the next group, a single photo, is
  archived into the same folder \<open>group_0001\<close>, beside the second photo of the failed
  album.\<close>

theorem failed_attempt_folder_reused_witness:
  "snd (save_media_group_try (env_failing ''photos/3.jpg'') ''album'' album3 fresh_world)
     = Some (Download, TelegramError)
   \<and> snd (save_media_group env_ok ''single_9'' [photo_message 9 None]
        (fst (save_media_group (env_failing ''photos/3.jpg'') ''album'' album3 fresh_world)))
     = True
   \<and> map folder (groups (metadata (fst (save_media_group env_ok ''single_9'' [photo_message 9 None]
        (fst (save_media_group (env_failing ''photos/3.jpg'') ''album'' album3 fresh_world))))))
     = [''group_0001'']
   \<and> fs (fst (save_media_group env_ok ''single_9'' [photo_message 9 None]
        (fst (save_media_group (env_failing ''photos/3.jpg'') ''album'' album3 fresh_world))))
        [''downloads'', ''media_groups'', ''group_0001'', ''photo_01.jpg'']
     = Some (File (Bytes ''JPEG photos/9.jpg''))
   \<and> fs (fst (save_media_group env_ok ''single_9'' [photo_message 9 None]
        (fst (save_media_group (env_failing ''photos/3.jpg'') ''album'' album3 fresh_world))))
        [''downloads'', ''media_groups'', ''group_0001'', ''photo_02.jpg'']
     = Some (File (Bytes ''JPEG photos/2.jpg''))"
proof -
  let ?e1 = "env_failing ''photos/3.jpg''"
  let ?m9 = "[photo_message 9 None]"
  define w1 where "w1 = fst (save_media_group_try ?e1 ''album'' album3 fresh_world)"
  define w1' where "w1' = w1\<lparr>log := log w1 @ [LogError ''album'' TelegramError]\<rparr>"
  define w2 where "w2 = fst (save_media_group env_ok ''single_9'' ?m9 w1')"
  have r: "snd (save_media_group_try ?e1 ''album'' album3 fresh_world)
      = Some (Download, TelegramError)"
    by code_simp
  then have t: "save_media_group_try ?e1 ''album'' album3 fresh_world
      = (w1, Some (Download, TelegramError))"
    by (simp add: prod_eq_iff w1_def)
  then have s1: "save_media_group ?e1 ''album'' album3 fresh_world = (w1', False)"
    by (simp add: save_media_group_def w1'_def)
  have st: "Download = Download \<or> Download = WriteDescriptor" by simp
  have "snd (save_media_group env_ok ''single_9'' ?m9
        (fst (save_media_group ?e1 ''album'' album3 fresh_world))) = True"
    by code_simp
  with s1 have ok: "snd (save_media_group env_ok ''single_9'' ?m9 w1') = True" by simp
  then have s2: "save_media_group env_ok ''single_9'' ?m9
      (w1\<lparr>log := log w1 @ [LogError ''album'' TelegramError]\<rparr>) = (w2, True)"
    by (simp add: prod_eq_iff w2_def w1'_def)
  have c: "group_folder (group_count fresh_world) = ''group_0001''"
      "groups (metadata fresh_world) = []"
    by code_simp+
  have f1: "fs (fst (save_media_group env_ok ''single_9'' ?m9
        (fst (save_media_group ?e1 ''album'' album3 fresh_world))))
        [''downloads'', ''media_groups'', ''group_0001'', ''photo_01.jpg'']
     = Some (File (Bytes ''JPEG photos/9.jpg''))"
    by code_simp
  have f2: "fs (fst (save_media_group env_ok ''single_9'' ?m9
        (fst (save_media_group ?e1 ''album'' album3 fresh_world))))
        [''downloads'', ''media_groups'', ''group_0001'', ''photo_02.jpg'']
     = Some (File (Bytes ''JPEG photos/2.jpg''))"
    by code_simp
  from failed_attempt_folder_reused [OF t st s2] c
  have "map folder (groups (metadata w2)) = [''group_0001'']"
    by auto
  with r ok s1 f1 f2 show ?thesis
    by (simp add: w2_def)
qed

section \<open>The save of the index, step by step\<close>

text \<open>
  C8, as the code has it. \<open>_save_metadata\<close> overwrites the metadata file in place,
  with no temporary file and no replace: when it returns, the file system went
  through two states, the first with the metadata file emptied by \<open>open(..., 'w')\<close>,
  the second with the index written into it, which is the state it leaves; no other
  path changes.
\<close>

theorem save_overwrites_in_place:
  assumes "save_metadata e w = (w', None)"
  shows "save_metadata_states e w = [(fs w)(metadata_file w \<mapsto> File Truncated), fs w']
    \<and> fs w' = (fs w)(metadata_file w \<mapsto> File (IndexDoc (metadata w)))"
  using assms
  by (auto simp: save_metadata_def save_metadata_states_def json_dump_metadata_def
      split: sum.splits if_splits dest!: open_w_Inr)

text \<open>A save over a metadata file that holds the empty index, of an index with one
  summary: in the first state the save passes through, the metadata file holds
  neither the old index nor the new one, but nothing.\<close>

theorem save_shows_truncated_file:
  "fs (fresh_world\<lparr>fs := (fs fresh_world)([''downloads'', ''metadata.json'']
          \<mapsto> File (IndexDoc empty_index)), metadata := sample_index\<rparr>)
      [''downloads'', ''metadata.json''] = Some (File (IndexDoc empty_index))
   \<and> map (\<lambda>f. f [''downloads'', ''metadata.json''])
       (save_metadata_states env_ok
         (fresh_world\<lparr>fs := (fs fresh_world)([''downloads'', ''metadata.json'']
            \<mapsto> File (IndexDoc empty_index)), metadata := sample_index\<rparr>))
     = [Some (File Truncated), Some (File (IndexDoc sample_index))]"
  by code_simp

theorem save_overwrites_in_place_witness:
  "(\<exists>w'. save_metadata env_ok (fresh_world\<lparr>metadata := sample_index\<rparr>) = (w', None)
      \<and> map (\<lambda>f. f [''downloads'', ''metadata.json''])
           (save_metadata_states env_ok (fresh_world\<lparr>metadata := sample_index\<rparr>))
         = [Some (File Truncated), Some (File (IndexDoc sample_index))])"
proof -
  let ?w = "fresh_world\<lparr>metadata := sample_index\<rparr>"
  have mf: "metadata_file ?w = [''downloads'', ''metadata.json'']"
    by (simp add: metadata_file_def fresh_world_def)
  obtain w' where s: "save_metadata env_ok ?w = (w', None)"
    by (simp add: save_metadata_def open_w_def is_dir_def metadata_file_def fresh_world_def
        env_ok_def)
  from save_overwrites_in_place [OF s] s mf show ?thesis
    by auto
qed

section \<open>The buffer under the dispatcher\<close>

lemma entry_simps [simp]:
  "entry (b(gid \<mapsto> ms)) gid = ms"
  "entry (b(gid := None)) gid = []"
  "b gid = Some ms \<Longrightarrow> entry b gid = ms"
  "b gid = None \<Longrightarrow> entry b gid = []"
  by (simp_all add: entry_def)

lemma getitem_entry: "getitem b gid = (b(gid \<mapsto> entry b gid), entry b gid)"
  by (auto simp: getitem_def entry_def split: option.splits)

text \<open>An album message is appended to its buffer entry, and its handler sleeps.\<close>

lemma handle_media_album:
  assumes "media_group_id m = Some gid" and "gid \<noteq> []"
  shows "handle_media e m w =
    Sleeping (w\<lparr>media_group_buffer := (media_group_buffer w)(gid \<mapsto> entry (media_group_buffer w) gid @ [m])\<rparr>)"
  using assms by (simp add: handle_media_def the_group_id_def getitem_entry)

text \<open>A handler that wakes on a missing or empty entry binds the key to the empty
  list, and does nothing else.\<close>

lemma handle_media_wake_empty:
  assumes "entry (media_group_buffer w) (the_group_id m) = []"
  shows "handle_media_wake e m w =
    Done (w\<lparr>media_group_buffer := (media_group_buffer w)(the_group_id m \<mapsto> [])\<rparr>)"
  using assms by (simp add: handle_media_wake_def getitem_entry)

text \<open>The handler of an album message, from its entry to its end: it appends its
  message, and after the sleep it finds the entry as it left it, so it flushes what
  was buffered before together with its own message.\<close>

lemma handle_update_album:
  assumes "media_group_id m = Some gid" and "gid \<noteq> []"
    and "save_media_group e gid (entry (media_group_buffer w) gid @ [m])
           (w\<lparr>media_group_buffer :=
                (media_group_buffer w)(gid \<mapsto> entry (media_group_buffer w) gid @ [m])\<rparr>) = (w1, ok)"
  shows "handle_update e m w =
     (if ok then
        (if reply_ok e (message_id m)
         then Done (w1\<lparr>outbox := outbox w @
                         [(message_id m, AlbumSaved (length (entry (media_group_buffer w) gid @ [m])))],
                       media_group_buffer := (media_group_buffer w)(gid := None)\<rparr>)
         else Raised w1 TelegramError)
      else Done (w1\<lparr>media_group_buffer := (media_group_buffer w)(gid := None)\<rparr>))"
proof -
  let ?ms = "entry (media_group_buffer w) gid @ [m]"
  let ?wB = "w\<lparr>media_group_buffer := (media_group_buffer w)(gid \<mapsto> ?ms)\<rparr>"
  from assms(1) have g: "the_group_id m = gid" by (simp add: the_group_id_def)
  from assms(1,2) have "handle_media e m w = Sleeping ?wB" by (rule handle_media_album)
  then have h: "handle_update e m w = handle_media_wake e m ?wB"
    by (simp add: handle_update_def)
  have b: "media_group_buffer ?wB (the_group_id m) = Some ?ms" by (simp add: g)
  have n: "?ms \<noteq> []" by simp
  from assms(3) g have s: "save_media_group e (the_group_id m) ?ms ?wB = (w1, ok)" by simp
  from handle_media_wake_flush [OF b n s] h g show ?thesis by simp
qed

text \<open>With nothing buffered for its group, the handler of an album message archives
  its own message alone.\<close>

lemma handle_update_alone:
  assumes "media_group_id m = Some gid" and "gid \<noteq> []"
    and "entry (media_group_buffer w) gid = []"
    and "save_media_group e gid [m] (w\<lparr>media_group_buffer := (media_group_buffer w)(gid \<mapsto> [m])\<rparr>)
           = (w1, ok)"
    and "reply_ok e (message_id m)"
  shows "handle_update e m w =
     Done (w1\<lparr>outbox := outbox w @ (if ok then [(message_id m, AlbumSaved 1)] else []),
              media_group_buffer := (media_group_buffer w)(gid := None)\<rparr>)"
proof -
  from assms(4) have "outbox w1 = outbox w" by (auto dest: save_media_group_frame)
  then have "w1\<lparr>outbox := outbox w\<rparr> = w1" by simp
  with handle_update_album [OF assms(1,2), of e w w1 ok] assms(3,4,5) show ?thesis
    by (cases ok) simp_all
qed

text \<open>No handler binds a key to the empty list.\<close>

lemma handle_update_no_empty_entry:
  assumes "no_empty_entry (media_group_buffer w)"
  shows "no_empty_entry (media_group_buffer (world_of (handle_update e m w)))"
proof (cases "truthy (media_group_id m)")
  case True
  then obtain gid where g: "media_group_id m = Some gid" "gid \<noteq> []"
    by (cases "media_group_id m") auto
  let ?ms = "entry (media_group_buffer w) gid @ [m]"
  let ?wB = "w\<lparr>media_group_buffer := (media_group_buffer w)(gid \<mapsto> ?ms)\<rparr>"
  obtain w1 ok where s: "save_media_group e gid ?ms ?wB = (w1, ok)" by fastforce
  then have "media_group_buffer w1 = media_group_buffer ?wB"
    by (auto dest: save_media_group_frame)
  with handle_update_album [OF g s] assms show ?thesis
    by (auto simp: no_empty_entry_def)
next
  case False
  obtain w1 ok where s: "save_media_group e (''single_'' @ str_int (message_id m)) [m] w = (w1, ok)"
    by fastforce
  then have "media_group_buffer w1 = media_group_buffer w"
    by (auto dest: save_media_group_frame)
  with False s assms show ?thesis
    by (auto simp: handle_update_def handle_media_def reply_text_def split: bool.splits)
qed

lemma run_updates_no_empty_entry:
  "no_empty_entry (media_group_buffer w) \<Longrightarrow>
   no_empty_entry (media_group_buffer (run_updates ups w))"
proof (induction ups arbitrary: w)
  case Nil
  then show ?case by simp
next
  case (Cons u ups)
  obtain e m where "u = (e, m)" by (cases u)
  with Cons show ?case by (simp add: handle_update_no_empty_entry)
qed

lemma run_updates_append:
  "run_updates (ups @ ups') w = run_updates ups' (run_updates ups w)"
proof (induction ups arbitrary: w)
  case Nil
  then show ?case by simp
next
  case (Cons u ups)
  obtain e m where "u = (e, m)" by (cases u)
  with Cons show ?case by simp
qed

text \<open>The handler of an album message whose reply can be delivered deletes the key of
  its group.\<close>

lemma handle_update_deletes_key:
  assumes "media_group_id m = Some gid" and "gid \<noteq> []" and "reply_ok e (message_id m)"
  shows "media_group_buffer (world_of (handle_update e m w)) gid = None"
proof -
  let ?ms = "entry (media_group_buffer w) gid @ [m]"
  let ?wB = "w\<lparr>media_group_buffer := (media_group_buffer w)(gid \<mapsto> ?ms)\<rparr>"
  obtain w1 ok where s: "save_media_group e gid ?ms ?wB = (w1, ok)" by fastforce
  from handle_update_album [OF assms(1,2) s] assms(3) show ?thesis by simp
qed

text \<open>
  C2 against the code. The claim has one group record with the message count \<open>N\<close> for
  the \<open>N\<close> messages of one media group. The code handles the updates one at a time:
  the handler of the first message appends it, sleeps, finds the entry with this
  one message, archives it and deletes the key before the second message is looked
  at, and so on. The album of three messages is archived as three groups, in the
  folders \<open>group_0001\<close> to \<open>group_0003\<close>, each with one file and the message count 1,
  and acknowledged three times with the count 1.
\<close>

theorem album_is_archived_message_by_message:
  "map (\<lambda>s. (group_id s, folder s, files_count s))
      (groups (metadata (run_updates album_updates fresh_world)))
     = [(''album'', ''group_0001'', 1), (''album'', ''group_0002'', 1),
        (''album'', ''group_0003'', 1)]
   \<and> map (\<lambda>d. map_option info_message_count
               (descriptor (run_updates album_updates fresh_world)
                  [''downloads'', ''media_groups'', d]))
        [''group_0001'', ''group_0002'', ''group_0003'', ''group_0004'']
     = [Some 1, Some 1, Some 1, None]
   \<and> outbox (run_updates album_updates fresh_world)
     = [(1, AlbumSaved 1), (2, AlbumSaved 1), (3, AlbumSaved 1)]"
  by code_simp

text \<open>
  C9, as the code has it. A check that finds the key of its group missing, or bound
  to the empty list, binds the key to the empty list and does nothing else. But the
  updates are handled one at a time, so the check of a handler runs on the entry its
  own append has just left, which is never empty: over any sequence of updates, a
  buffer without a key bound to the empty list stays so; and once the handler of
  the last message of a group has run, with a reply that can be delivered, the
  buffer has no entry for the group id.
\<close>

theorem checks_bind_no_empty_entry:
  "(the_group_id m' = gid \<and> entry (media_group_buffer w') gid = [] \<longrightarrow>
      handle_media_wake e' m' w' =
        Done (w'\<lparr>media_group_buffer := (media_group_buffer w')(gid \<mapsto> [])\<rparr>))
   \<and> (no_empty_entry (media_group_buffer w) \<longrightarrow>
        no_empty_entry (media_group_buffer (run_updates ups w)))
   \<and> (media_group_id m = Some gid \<and> gid \<noteq> [] \<and> reply_ok e (message_id m) \<longrightarrow>
        media_group_buffer (run_updates (ups @ [(e, m)]) w) gid = None)"
proof (intro conjI impI)
  assume "the_group_id m' = gid \<and> entry (media_group_buffer w') gid = []"
  then show "handle_media_wake e' m' w' =
        Done (w'\<lparr>media_group_buffer := (media_group_buffer w')(gid \<mapsto> [])\<rparr>)"
    using handle_media_wake_empty [of w' m' e'] by auto
next
  assume "no_empty_entry (media_group_buffer w)"
  then show "no_empty_entry (media_group_buffer (run_updates ups w))"
    by (rule run_updates_no_empty_entry)
next
  assume "media_group_id m = Some gid \<and> gid \<noteq> [] \<and> reply_ok e (message_id m)"
  then have "media_group_buffer (world_of (handle_update e m (run_updates ups w))) gid = None"
    by (simp add: handle_update_deletes_key)
  then show "media_group_buffer (run_updates (ups @ [(e, m)]) w) gid = None"
    by (simp add: run_updates_append)
qed

text \<open>The album of three messages: once the three checks have run, the buffer has no
  entry for the group, and three groups were archived.\<close>

theorem album_leaves_no_entry:
  "length album_updates = 3
   \<and> list_all (\<lambda>(e, m). media_group_id m = Some ''album'') album_updates
   \<and> media_group_buffer (run_updates album_updates fresh_world) ''album'' = None
   \<and> length (groups (metadata (run_updates album_updates fresh_world))) = 3"
  by code_simp

theorem checks_bind_no_empty_entry_witness:
  "handle_media_wake env_ok (photo_message 1 (Some ''album'')) fresh_world
     = Done (fresh_world\<lparr>media_group_buffer :=
               (media_group_buffer fresh_world)(''album'' \<mapsto> [])\<rparr>)
   \<and> no_empty_entry (media_group_buffer fresh_world)
   \<and> no_empty_entry (media_group_buffer (run_updates album_updates fresh_world))
   \<and> media_group_buffer
        (run_updates ([(env_ok, photo_message 1 (Some ''album'')),
                       (env_ok, photo_message 2 (Some ''album''))]
                      @ [(env_ok, photo_message 3 (Some ''album''))]) fresh_world) ''album''
      = None"
proof -
  let ?m1 = "photo_message 1 (Some ''album'')"
  let ?m3 = "photo_message 3 (Some ''album'')"
  let ?ups = "[(env_ok, photo_message 1 (Some ''album'')),
               (env_ok, photo_message 2 (Some ''album''))]"
  have a: "the_group_id ?m1 = ''album'' \<and> entry (media_group_buffer fresh_world) ''album'' = []"
    by (simp add: the_group_id_def photo_message_def fresh_world_def entry_def)
  have b: "no_empty_entry (media_group_buffer fresh_world)"
    by (simp add: no_empty_entry_def fresh_world_def)
  have c: "media_group_id ?m3 = Some ''album'' \<and> ''album'' \<noteq> [] \<and> reply_ok env_ok (message_id ?m3)"
    by (simp add: photo_message_def env_ok_def)
  from checks_bind_no_empty_entry
    [where m' = ?m1 and gid = "''album''" and w' = fresh_world and e' = env_ok
       and w = fresh_world and ups = album_updates and m = ?m3 and e = env_ok]
    checks_bind_no_empty_entry
    [where m' = ?m1 and gid = "''album''" and w' = fresh_world and e' = env_ok
       and w = fresh_world and ups = ?ups and m = ?m3 and e = env_ok]
    a b c
  show ?thesis by simp
qed

end
